theory Spec2Isabelle
  imports Main
begin

unbundle bit_operations_syntax

section \<open>JavaScript values\<close>

text \<open>
  The client is TypeScript running on Node. Its values are modelled at the types the
  source declares. A string is a list of code units (\<^typ>\<open>string\<close>; only code units
  below 256 are representable). A number is an integer or \<open>NaN\<close>: every number the
  session handles is a count of milliseconds, an identifier or a length, far below
  \<open>2 ^ 53\<close>, where the arithmetic of doubles is the arithmetic of integers. A field that
  can be \<open>undefined\<close> or \<open>null\<close> has a \<open>nullable\<close> type.
\<close>

datatype jsnum = NaN | Num int

datatype 'a nullable = Undefined | Null | Val 'a

text \<open>\<open>ToNumber\<close> of a number that may be absent: \<open>undefined\<close> is \<open>NaN\<close>, \<open>null\<close> is \<open>+0\<close>.\<close>

fun ToNumber :: "jsnum nullable \<Rightarrow> jsnum" where
  "ToNumber Undefined = NaN"
| "ToNumber Null = Num 0"
| "ToNumber (Val n) = n"

text \<open>The operators \<open>a < b\<close>, \<open>a > b\<close>, \<open>a - b\<close> and \<open>a + b\<close> on numbers: a comparison
  with \<open>NaN\<close> is false, arithmetic with \<open>NaN\<close> is \<open>NaN\<close>.\<close>

fun js_lt :: "jsnum \<Rightarrow> jsnum \<Rightarrow> bool" where
  "js_lt (Num a) (Num b) = (a < b)"
| "js_lt _ _ = False"

definition js_gt :: "jsnum \<Rightarrow> jsnum \<Rightarrow> bool" where
  "js_gt a b = js_lt b a"

fun js_sub :: "jsnum \<Rightarrow> jsnum \<Rightarrow> jsnum" where
  "js_sub (Num a) (Num b) = Num (a - b)"
| "js_sub _ _ = NaN"

fun js_add :: "jsnum \<Rightarrow> jsnum \<Rightarrow> jsnum" where
  "js_add (Num a) (Num b) = Num (a + b)"
| "js_add _ _ = NaN"

text \<open>Truthiness, as \<open>!x\<close> reads it: \<open>undefined\<close>, \<open>null\<close>, the empty string, \<open>0\<close> and
  \<open>NaN\<close> are falsy.\<close>

fun falsy_string :: "string nullable \<Rightarrow> bool" where
  "falsy_string (Val s) = (s = [])"
| "falsy_string _ = True"

fun falsy_number :: "jsnum nullable \<Rightarrow> bool" where
  "falsy_number (Val (Num n)) = (n = 0)"
| "falsy_number _ = True"

text \<open>\<open>ToString\<close>, as template literals and \<open>+\<close> with a string apply it.\<close>

function decimal :: "int \<Rightarrow> string" where
  "decimal n =
     (if n < 10 then [''0123456789'' ! nat n]
      else decimal (n div 10) @ [''0123456789'' ! nat (n mod 10)])"
  by pat_completeness auto
termination
proof (relation "measure nat")
  show "wf (measure nat)" by simp
next
  fix n :: int
  assume "\<not> n < 10"
  then have "nat (n div 10) < nat n" by linarith
  then show "(n div 10, n) \<in> measure nat" by simp
qed

declare decimal.simps [simp del]

fun string_of_num :: "jsnum \<Rightarrow> string" where
  "string_of_num NaN = ''NaN''"
| "string_of_num (Num i) = (if i < 0 then ''-'' @ decimal (- i) else decimal i)"

fun string_of_nullable :: "('a \<Rightarrow> string) \<Rightarrow> 'a nullable \<Rightarrow> string" where
  "string_of_nullable f Undefined = ''undefined''"
| "string_of_nullable f Null = ''null''"
| "string_of_nullable f (Val x) = f x"

abbreviation str :: "string nullable \<Rightarrow> string" where
  "str \<equiv> string_of_nullable (\<lambda>s. s)"

abbreviation num_str :: "jsnum nullable \<Rightarrow> string" where
  "num_str \<equiv> string_of_nullable string_of_num"

subsection \<open>Dates\<close>

text \<open>A \<open>Date\<close> holds a time value: milliseconds since the epoch, or \<open>NaN\<close> for an
  invalid date. Comparing dates with \<open><\<close> and \<open>></\<close> compares their time values.\<close>

datatype jsdate = Date jsnum

fun getTime :: "jsdate \<Rightarrow> jsnum" where
  "getTime (Date t) = t"

text \<open>A bound of the school year is a date or still \<open>null\<close>; in a comparison \<open>null\<close>
  counts as \<open>+0\<close>.\<close>

fun date_number :: "jsdate nullable \<Rightarrow> jsnum" where
  "date_number Undefined = NaN"
| "date_number Null = Num 0"
| "date_number (Val d) = getTime d"

definition pad :: "nat \<Rightarrow> int \<Rightarrow> string" where
  "pad w n = replicate (w - length (decimal n)) (CHR ''0'') @ decimal n"

text \<open>The civil date of a day number (days since 1970-01-01) in the proleptic Gregorian
  calendar: year, month (1 to 12) and day of the month.\<close>

definition civil_from_days :: "int \<Rightarrow> int \<times> int \<times> int" where
  "civil_from_days z0 =
     (let z = z0 + 719468;
          era = z div 146097;
          doe = z - era * 146097;
          yoe = (doe - doe div 1460 + doe div 36524 - doe div 146096) div 365;
          y = yoe + era * 400;
          doy = doe - (365 * yoe + yoe div 4 - yoe div 100);
          mp = (5 * doy + 2) div 153;
          d = doy - (153 * mp + 2) div 5 + 1;
          m = (if mp < 10 then mp + 3 else mp - 9)
      in (if m \<le> 2 then y + 1 else y, m, d))"

definition iso_year :: "int \<Rightarrow> string" where
  "iso_year y =
     (if 0 \<le> y \<and> y \<le> 9999 then pad 4 y
      else (if y < 0 then ''-'' else ''+'') @ pad 6 \<bar>y\<bar>)"

definition toISOString :: "int \<Rightarrow> string" where
  "toISOString t =
     (let ms = t mod 86400000 in
      case civil_from_days (t div 86400000) of (y, m, d) \<Rightarrow>
        iso_year y @ ''-'' @ pad 2 m @ ''-'' @ pad 2 d @ ''T'' @
        pad 2 (ms div 3600000) @ '':'' @ pad 2 (ms div 60000 mod 60) @ '':'' @
        pad 2 (ms div 1000 mod 60) @ ''.'' @ pad 3 (ms mod 1000) @ ''Z'')"

text \<open>\<open>toJSON\<close> is \<open>null\<close> for an invalid date and the ISO string otherwise.\<close>

fun toJSON :: "jsdate \<Rightarrow> string nullable" where
  "toJSON (Date NaN) = Null"
| "toJSON (Date (Num t)) = Val (toISOString t)"

section \<open>Requests and responses\<close>

text \<open>
  The transport (\<open>node-fetch\<close>) is outside the repository. A request is what the client
  hands to it; a response is read through the members the client uses: \<open>ok\<close>, \<open>url\<close>,
  \<open>headers.get('set-cookie')\<close> (\<open>None\<close> is \<open>null\<close>), \<open>text()\<close> and \<open>json()\<close>
  (\<open>None\<close>: the body is not JSON and the promise rejects). A JSON object is read through
  the fields the client destructures; a field the object lacks is \<open>Undefined\<close>.
\<close>

record filter_item =
  item_value :: string
  item_title :: string

record date_range =
  range_start :: "string nullable"
  range_end :: "string nullable"

record filter_source =
  filterId :: string
  defaultValue :: "string nullable"
  items :: "filter_item list option"
  defaultRange :: "date_range option"

record json_object =
  lt :: "string nullable"
  ver :: "string nullable"
  salt :: "string nullable"
  at :: "string nullable"
  timeOut :: "jsnum nullable"
  filterSources :: "filter_source list option"

datatype json_value = JsonNull | JsonObject json_object

record response =
  ok :: bool
  url :: string
  set_cookie :: "string option"
  body_text :: string
  json :: "json_value option"

record request =
  req_url :: string
  req_method :: "string nullable"
  req_headers :: "(string \<times> string nullable) list"
  req_body :: "string nullable"

text \<open>The second argument of \<open>fetch\<close> (\<open>RequestInit\<close>); a call without it passes
  \<open>no_params\<close>.\<close>

record params =
  p_method :: "string nullable"
  p_headers :: "(string \<times> string nullable) list"
  p_body :: "string nullable"

definition no_params :: params where
  "no_params = \<lparr>p_method = Undefined, p_headers = [], p_body = Undefined\<rparr>"

text \<open>What a promise of the client can reject with, or a method throw: the plain
  \<open>Error\<close> of the validation guards with its message, the \<open>FetchError\<close> of a response
  that is not ok, a failure of the transport itself, and the errors of reading a
  response.\<close>

datatype error =
    Error string
  | FetchError response
  | TransportFailure
  | SyntaxError
  | TypeError
  | ParserError

text \<open>One exchange of the transport: it fails, or it gives a response. The transport
  sees the requests sent before and the request.\<close>

datatype exchange = Failed | Response response

type_synonym transport = "request list \<Rightarrow> request \<Rightarrow> exchange"

section \<open>Objects as ordered property lists\<close>

text \<open>
  A plain object is a list of its own properties in creation order. \<open>for ... in\<close>
  visits the keys that are array indices first, in ascending numeric order, then the
  other keys in creation order. Assigning to the key \<open>__proto__\<close> of a plain object
  calls the inherited setter, which ignores a string.
\<close>

fun set_property :: "string \<Rightarrow> 'v \<Rightarrow> (string \<times> 'v) list \<Rightarrow> (string \<times> 'v) list" where
  "set_property k v [] = [(k, v)]"
| "set_property k v ((k', v') # kvs) =
     (if k' = k then (k, v) # kvs else (k', v') # set_property k v kvs)"

definition assign :: "string \<Rightarrow> 'v \<Rightarrow> (string \<times> 'v) list \<Rightarrow> (string \<times> 'v) list" where
  "assign k v obj = (if k = ''__proto__'' then obj else set_property k v obj)"

definition is_digit :: "char \<Rightarrow> bool" where
  "is_digit c = (c \<in> set ''0123456789'')"

definition dec_value :: "string \<Rightarrow> int" where
  "dec_value s = foldl (\<lambda>n c. 10 * n + (of_char c - 48)) 0 s"

definition is_array_index :: "string \<Rightarrow> bool" where
  "is_array_index k =
     (k \<noteq> [] \<and> list_all is_digit k \<and> (k = ''0'' \<or> hd k \<noteq> CHR ''0'') \<and>
      dec_value k < 2 ^ 32 - 1)"

definition own_keys :: "(string \<times> 'v) list \<Rightarrow> string list" where
  "own_keys obj =
     sort_key dec_value (filter is_array_index (map fst obj)) @
     filter (\<lambda>k. \<not> is_array_index k) (map fst obj)"

text \<open>Object spread \<open>{...a, ...b}\<close>: the properties of \<open>a\<close>, then those of \<open>b\<close>, a later
  value replacing an earlier one in place.\<close>

definition spread :: "(string \<times> 'v) list \<Rightarrow> (string \<times> 'v) list \<Rightarrow> (string \<times> 'v) list" where
  "spread a b = foldl (\<lambda>obj (k, v). set_property k v obj) a b"

section \<open>The session\<close>

record subject_entry =
  subject_id :: string
  subject_name :: string

record study_year =
  sy_start :: "jsdate nullable"
  sy_end :: "jsdate nullable"

record parser =
  this_host :: string
  this_login :: string
  this_password :: string
  this_ttslogin :: string
  this_at :: "string nullable"
  this_ver :: "string nullable"
  this_cookie :: "(string \<times> string) list"
  this_secure :: bool
  this_sessionTime :: "jsnum nullable"
  this_userId :: "jsnum nullable"
  this_yearId :: "string nullable"
  this_classId :: "jsnum nullable"
  this_skoolId :: "string nullable"
  this_currYear :: "string nullable"
  this_serverId :: "string nullable"
  this_skoolName :: "string nullable"
  this_timeFormat :: "string nullable"
  this_dateFormat :: "string nullable"
  this_serverTimeZone :: "jsnum nullable"
  subjects :: "subject_entry list"
  studyYear :: study_year

definition constructor :: "string \<Rightarrow> string \<Rightarrow> string \<Rightarrow> string \<Rightarrow> parser" where
  "constructor host login password ttslogin =
     \<lparr>this_host = host, this_login = login, this_password = password,
      this_ttslogin = ttslogin,
      this_at = Null, this_ver = Null, this_cookie = [], this_secure = True,
      this_sessionTime = Null,
      this_userId = Null, this_yearId = Null, this_classId = Null, this_skoolId = Null,
      this_currYear = Null, this_serverId = Null, this_skoolName = Null,
      this_timeFormat = Null, this_dateFormat = Null, this_serverTimeZone = Null,
      subjects = [], studyYear = \<lparr>sy_start = Null, sy_end = Null\<rparr>\<rparr>"

definition host :: "parser \<Rightarrow> string" where
  "host p = ''http'' @ (if this_secure p then ''s'' else []) @ ''://'' @ this_host p"

text \<open>The getter \<open>cookie\<close>: the loop over the keys of the jar, a falsy value skipped.\<close>

definition cookie_step :: "(string \<times> string) list \<Rightarrow> string \<Rightarrow> string \<Rightarrow> string" where
  "cookie_step jar s key =
     (case map_of jar key of
        None \<Rightarrow> s
      | Some v \<Rightarrow>
          if v = [] then s
          else (if s \<noteq> [] then s @ ''; '' else s) @ key @ ''='' @ v)"

definition cookie :: "parser \<Rightarrow> string" where
  "cookie p = foldl (cookie_step (this_cookie p)) [] (own_keys (this_cookie p))"

definition headers :: "parser \<Rightarrow> (string \<times> string nullable) list" where
  "headers p =
     [(''host'', Val (this_host p)),
      (''cookie'', Val (cookie p)),
      (''referer'', Val (host p)),
      (''content-type'', Val ''application/x-www-form-urlencoded''),
      (''x-requested-with'', Val ''xmlhttprequest'')]"

text \<open>The getter \<open>needAuth\<close>; \<open>now\<close> is what \<open>Date.now()\<close> returns.\<close>

definition needAuth :: "parser \<Rightarrow> int \<Rightarrow> bool" where
  "needAuth p now =
     (falsy_string (this_at p) \<or> falsy_string (this_ver p) \<or>
      js_lt (js_sub (ToNumber (this_sessionTime p)) (Num now)) (Num 1000))"

subsection \<open>Absorbing cookies\<close>

text \<open>In a regular expression \<open>.\<close> matches any code unit but a line terminator.\<close>

definition line_terminator :: "char \<Rightarrow> bool" where
  "line_terminator c = (c = CHR 0x0A \<or> c = CHR 0x0D)"

text \<open>\<open>/expires=.+?;/g\<close> replaced by the empty string. \<open>match_expires s\<close> is the rest
  of \<open>s\<close> after a match at its start: the literal, one character, then as few
  characters as possible up to a semicolon.\<close>

fun lazy_until_semicolon :: "string \<Rightarrow> string option" where
  "lazy_until_semicolon [] = None"
| "lazy_until_semicolon (c # cs) =
     (if c = CHR '';'' then Some cs
      else if line_terminator c then None
      else lazy_until_semicolon cs)"

definition match_expires :: "string \<Rightarrow> string option" where
  "match_expires s =
     (if take 8 s = ''expires='' then
        (case drop 8 s of
           [] \<Rightarrow> None
         | c # cs \<Rightarrow> if line_terminator c then None else lazy_until_semicolon cs)
      else None)"

lemma lazy_until_semicolon_shorter:
  "lazy_until_semicolon s = Some r \<Longrightarrow> length r < length s"
  by (induction s) (auto split: if_splits)

lemma match_expires_shorter:
  assumes "match_expires s = Some r"
  shows "length r < length s"
proof -
  from assms obtain c cs where d: "drop 8 s = c # cs" and l: "lazy_until_semicolon cs = Some r"
    by (auto simp: match_expires_def split: if_splits list.splits)
  from l have "length r < length cs" by (rule lazy_until_semicolon_shorter)
  also have "length cs < length (drop 8 s)" using d by simp
  also have "\<dots> \<le> length s" by simp
  finally show ?thesis .
qed

function strip_expires :: "string \<Rightarrow> string" where
  "strip_expires [] = []"
| "strip_expires (c # cs) =
     (case match_expires (c # cs) of
        Some r \<Rightarrow> strip_expires r
      | None \<Rightarrow> c # strip_expires cs)"
  by pat_completeness auto
termination
proof (relation "measure length")
  show "wf (measure length)" by simp
next
  fix c cs r
  assume "match_expires (c # cs) = Some r"
  then have "length r < length (c # cs)" by (rule match_expires_shorter)
  then show "(r, c # cs) \<in> measure length" by simp
next
  fix c :: char and cs
  show "(cs, c # cs) \<in> measure length" by simp
qed

text \<open>\<open>split(', ')\<close>: the pieces between the occurrences of the separator, found from
  the left; the first argument is the piece being read.\<close>

fun split_from :: "string \<Rightarrow> string \<Rightarrow> string list" where
  "split_from piece [] = [piece]"
| "split_from piece [c] = [piece @ [c]]"
| "split_from piece (c # d # cs) =
     (if c = CHR '','' \<and> d = CHR '' '' then piece # split_from [] cs
      else split_from (piece @ [c]) (d # cs))"

definition split_comma_space :: "string \<Rightarrow> string list" where
  "split_comma_space s = split_from [] s"

text \<open>\<open>c.match(/^(.+?)=(.+?)(?=;|$)/)\<close>: the name is the shortest non-empty prefix
  followed by \<open>=\<close> and a value; the value is the shortest non-empty run followed by a
  semicolon or the end. The functions try the candidates in the order the matcher does.\<close>

fun match_value :: "string \<Rightarrow> string \<Rightarrow> string option" where
  "match_value v [] = Some v"
| "match_value v (c # cs) =
     (if c = CHR '';'' then Some v
      else if line_terminator c then None
      else match_value (v @ [c]) cs)"

definition value_at :: "string \<Rightarrow> string option" where
  "value_at s =
     (case s of
        [] \<Rightarrow> None
      | c # cs \<Rightarrow> if line_terminator c then None else match_value [c] cs)"

fun match_name :: "string \<Rightarrow> string \<Rightarrow> (string \<times> string) option" where
  "match_name n [] = None"
| "match_name n (c # cs) =
     (case (if c = CHR ''='' then value_at cs else None) of
        Some v \<Rightarrow> Some (n, v)
      | None \<Rightarrow> if line_terminator c then None else match_name (n @ [c]) cs)"

definition match_cookie :: "string \<Rightarrow> (string \<times> string) option" where
  "match_cookie s =
     (case s of
        [] \<Rightarrow> None
      | c # cs \<Rightarrow> if line_terminator c then None else match_name [c] cs)"

definition absorb :: "parser \<Rightarrow> string \<Rightarrow> parser" where
  "absorb p c =
     (case match_cookie c of
        None \<Rightarrow> p
      | Some (name, v) \<Rightarrow>
          if name = [] \<or> v = [] then p
          else p\<lparr>this_cookie := assign name v (this_cookie p)\<rparr>)"

definition saveCookie :: "parser \<Rightarrow> response \<Rightarrow> parser" where
  "saveCookie p res =
     (case set_cookie res of
        None \<Rightarrow> p
      | Some h \<Rightarrow> foldl absorb p (split_comma_space (strip_expires h)))"

subsection \<open>The fetch wrapper\<close>

text \<open>
  A method runs on a state: the session and the requests sent so far. It settles with an
  error (a throw or a rejection) or a value, and leaves a state. \<open>and_then\<close> is
  \<open>.then(f)\<close>: \<open>f\<close> runs only on a value.
\<close>

record state =
  session :: parser
  sent :: "request list"

type_synonym 'a outcome = "(error + 'a) \<times> state"

definition and_then :: "'a outcome \<Rightarrow> ('a \<Rightarrow> state \<Rightarrow> 'b outcome) \<Rightarrow> 'b outcome" where
  "and_then r f = (case r of (Inl e, s) \<Rightarrow> (Inl e, s) | (Inr x, s) \<Rightarrow> f x s)"

definition build_request :: "parser \<Rightarrow> string \<Rightarrow> params \<Rightarrow> request" where
  "build_request p path params =
     \<lparr>req_url = host p @ path,
      req_method = p_method params,
      req_headers = spread (headers p) (p_headers params),
      req_body = p_body params\<rparr>"

definition fetch :: "transport \<Rightarrow> string \<Rightarrow> params \<Rightarrow> state \<Rightarrow> response outcome" where
  "fetch net path params s =
     (let req = build_request (session s) path params;
          s' = s\<lparr>sent := sent s @ [req]\<rparr>
      in case net (sent s) req of
           Failed \<Rightarrow> (Inl TransportFailure, s')
         | Response res \<Rightarrow>
             if \<not> ok res then (Inl (FetchError res), s')
             else (Inr res, s'\<lparr>session := saveCookie (session s') res\<rparr>))"

text \<open>\<open>res.json()\<close> and \<open>res.text()\<close>.\<close>

definition res_json :: "response \<Rightarrow> state \<Rightarrow> json_value outcome" where
  "res_json res s = (case json res of None \<Rightarrow> (Inl SyntaxError, s) | Some j \<Rightarrow> (Inr j, s))"

definition res_text :: "response \<Rightarrow> state \<Rightarrow> string outcome" where
  "res_text res s = (Inr (body_text res), s)"

subsection \<open>Checking dates\<close>

definition is_nullish :: "'a nullable \<Rightarrow> bool" where
  "is_nullish x = (x = Null \<or> x = Undefined)"

text \<open>The bounds of the school year as \<open><\<close> and \<open>>\<close> read them.\<close>

definition year_start :: "parser \<Rightarrow> jsnum" where
  "year_start p = date_number (sy_start (studyYear p))"

definition year_end :: "parser \<Rightarrow> jsnum" where
  "year_end p = date_number (sy_end (studyYear p))"

fun checkDates :: "parser \<Rightarrow> jsdate list \<Rightarrow> bool" where
  "checkDates p [] = True"
| "checkDates p (date # dates) =
     (if js_lt (getTime date) (year_start p) \<or>
         js_gt (getTime date) (year_end p) \<or>
         is_nullish (toJSON date)
      then False
      else checkDates p dates)"

section \<open>What the session is given\<close>

text \<open>
  The helpers and the HTML parsers are modules outside these sources, and a few
  built-ins depend on the host or are too wide to define here. The methods take them in
  an environment: the transport; \<open>md5\<close> of the helpers; \<open>parserAppContext\<close> of the HTML
  parsers; \<open>Date.parse\<close>, behind \<open>new Date(string)\<close>; the conversion of a string to a
  number, behind \<open>==\<close> between a string and a number; and the offset of local time from
  UTC at a time value, behind \<open>getFullYear\<close> and \<open>getMonth\<close>.
\<close>

record app_context =
  ctx_at :: "string nullable"
  ctx_ver :: "string nullable"
  ctx_yearId :: "string nullable"
  ctx_schoolId :: "string nullable"
  ctx_currYear :: "string nullable"
  ctx_fullSchoolName :: "string nullable"
  ctx_dateFormat :: "string nullable"
  ctx_timeFormat :: "string nullable"
  ctx_serverTimeZone :: "jsnum nullable"

record env =
  net :: transport
  md5 :: "string \<Rightarrow> string"
  parserAppContext :: "string \<Rightarrow> error + app_context"
  Date_parse :: "string \<Rightarrow> jsnum"
  StringToNumber :: "string \<Rightarrow> jsnum"
  LocalTZA :: "int \<Rightarrow> int"

subsection \<open>The hash\<close>

text \<open>
  Modelled from the spec: \<open>md5\<close> of the helpers is not among the sources, and the spec
  names it only as the hash of the login digest. The methods take the hash from the
  environment. \<open>md5_rfc1321\<close> is the function the helper's name stands for, the MD5
  message digest of RFC 1321 of the UTF-8 bytes of a string, as 32 lower-case hexadecimal
  digits; it is the hash of the examples. Words of 32 bits are integers below \<open>2 ^ 32\<close>.
\<close>

definition md5_K :: "int list" where
  "md5_K = [0xd76aa478, 0xe8c7b756, 0x242070db, 0xc1bdceee, 0xf57c0faf, 0x4787c62a, 0xa8304613, 0xfd469501, 0x698098d8, 0x8b44f7af, 0xffff5bb1, 0x895cd7be, 0x6b901122, 0xfd987193, 0xa679438e, 0x49b40821, 0xf61e2562, 0xc040b340, 0x265e5a51, 0xe9b6c7aa, 0xd62f105d, 0x02441453, 0xd8a1e681, 0xe7d3fbc8, 0x21e1cde6, 0xc33707d6, 0xf4d50d87, 0x455a14ed, 0xa9e3e905, 0xfcefa3f8, 0x676f02d9, 0x8d2a4c8a, 0xfffa3942, 0x8771f681, 0x6d9d6122, 0xfde5380c, 0xa4beea44, 0x4bdecfa9, 0xf6bb4b60, 0xbebfbc70, 0x289b7ec6, 0xeaa127fa, 0xd4ef3085, 0x04881d05, 0xd9d4d039, 0xe6db99e5, 0x1fa27cf8, 0xc4ac5665, 0xf4292244, 0x432aff97, 0xab9423a7, 0xfc93a039, 0x655b59c3, 0x8f0ccc92, 0xffeff47d, 0x85845dd1, 0x6fa87e4f, 0xfe2ce6e0, 0xa3014314, 0x4e0811a1, 0xf7537e82, 0xbd3af235, 0x2ad7d2bb, 0xeb86d391]"

definition md5_S :: "nat list" where
  "md5_S = [7, 12, 17, 22, 7, 12, 17, 22, 7, 12, 17, 22, 7, 12, 17, 22,
            5, 9, 14, 20, 5, 9, 14, 20, 5, 9, 14, 20, 5, 9, 14, 20,
            4, 11, 16, 23, 4, 11, 16, 23, 4, 11, 16, 23, 4, 11, 16, 23,
            6, 10, 15, 21, 6, 10, 15, 21, 6, 10, 15, 21, 6, 10, 15, 21]"

definition add32 :: "int \<Rightarrow> int \<Rightarrow> int" where
  "add32 x y = (x + y) mod 4294967296"

definition not32 :: "int \<Rightarrow> int" where
  "not32 x = 4294967295 - x"

definition rotl32 :: "nat \<Rightarrow> int \<Rightarrow> int" where
  "rotl32 n x = (x * 2 ^ n) mod 4294967296 + x div 2 ^ (32 - n)"

type_synonym md5_state = "int \<times> int \<times> int \<times> int"

definition md5_round :: "int list \<Rightarrow> md5_state \<Rightarrow> nat \<Rightarrow> md5_state" where
  "md5_round M st i =
     (case st of (A, B, C, D) \<Rightarrow>
      let F = (if i < 16 then (B AND C) OR (not32 B AND D)
               else if i < 32 then (D AND B) OR (not32 D AND C)
               else if i < 48 then B XOR C XOR D
               else C XOR (B OR not32 D));
          g = (if i < 16 then i
               else if i < 32 then (5 * i + 1) mod 16
               else if i < 48 then (3 * i + 5) mod 16
               else (7 * i) mod 16);
          F' = add32 (add32 (add32 F A) (md5_K ! i)) (M ! g)
      in (D, add32 B (rotl32 (md5_S ! i) F'), B, C))"

definition md5_block :: "md5_state \<Rightarrow> int list \<Rightarrow> md5_state" where
  "md5_block st M =
     (case st of (a0, b0, c0, d0) \<Rightarrow>
      case foldl (md5_round M) st [0..<64] of (A, B, C, D) \<Rightarrow>
        (add32 a0 A, add32 b0 B, add32 c0 C, add32 d0 D))"

fun le_words :: "int list \<Rightarrow> int list" where
  "le_words (b0 # b1 # b2 # b3 # bs) =
     (b0 + 256 * b1 + 65536 * b2 + 16777216 * b3) # le_words bs"
| "le_words _ = []"

fun chunks :: "'a list \<Rightarrow> 'a list list" where
  "chunks [] = []"
| "chunks (x # xs) = take 16 (x # xs) # chunks (drop 16 (x # xs))"

definition le_bytes :: "nat \<Rightarrow> int \<Rightarrow> int list" where
  "le_bytes k n = map (\<lambda>i. (n div 256 ^ i) mod 256) [0..<k]"

definition md5_pad :: "int list \<Rightarrow> int list" where
  "md5_pad bs =
     bs @ [128] @ replicate ((119 - length bs mod 64) mod 64) 0 @
     le_bytes 8 ((8 * int (length bs)) mod 2 ^ 64)"

text \<open>The bytes of a code unit in UTF-8.\<close>

definition utf8 :: "char \<Rightarrow> int list" where
  "utf8 c = (let n = (of_char c :: int) in if n < 128 then [n] else [192 + n div 64, 128 + n mod 64])"

definition hex_byte :: "int \<Rightarrow> string" where
  "hex_byte b = [''0123456789abcdef'' ! nat (b div 16), ''0123456789abcdef'' ! nat (b mod 16)]"

definition md5_rfc1321 :: "string \<Rightarrow> string" where
  "md5_rfc1321 s =
     (case foldl md5_block (0x67452301, 0xefcdab89, 0x98badcfe, 0x10325476)
             (chunks (le_words (md5_pad (concat (map utf8 s))))) of
        (a, b, c, d) \<Rightarrow> concat (map (\<lambda>w. concat (map hex_byte (le_bytes 4 w))) [a, b, c, d]))"

subsection \<open>Built-ins\<close>

text \<open>\<open>encodeURI\<close>: a code unit outside the unescaped set becomes the percent-escapes
  of its UTF-8 bytes.\<close>

definition uri_unescaped :: "char \<Rightarrow> bool" where
  "uri_unescaped c =
     (c \<in> set (''ABCDEFGHIJKLMNOPQRSTUVWXYZabcdefghijklmnopqrstuvwxyz0123456789'' @
               '';,/?:@&=+$-_.!~*()#'' @ [CHR 0x27]))"

definition percent :: "int \<Rightarrow> string" where
  "percent b =
     [CHR ''%'', ''0123456789ABCDEF'' ! nat (b div 16), ''0123456789ABCDEF'' ! nat (b mod 16)]"

definition encode_unit :: "char \<Rightarrow> string" where
  "encode_unit c =
     (let n = (of_char c :: int) in
      if uri_unescaped c then [c]
      else if n < 128 then percent n
      else percent (192 + n div 64) @ percent (128 + n mod 64))"

definition encodeURI :: "string \<Rightarrow> string" where
  "encodeURI s = concat (map encode_unit s)"

text \<open>\<open>parseInt\<close> without a radix: leading white space, a sign, \<open>0x\<close> for base 16,
  then the longest run of digits; \<open>NaN\<close> when the run is empty.\<close>

definition is_white_space :: "char \<Rightarrow> bool" where
  "is_white_space c = (of_char c \<in> set [9, 10, 11, 12, 13, 32, 160 :: int])"

definition digit_of :: "char \<Rightarrow> int option" where
  "digit_of c =
     (let n = (of_char c :: int) in
      if 48 \<le> n \<and> n \<le> 57 then Some (n - 48)
      else if 97 \<le> n \<and> n \<le> 122 then Some (n - 87)
      else if 65 \<le> n \<and> n \<le> 90 then Some (n - 55)
      else None)"

definition radix_digit :: "int \<Rightarrow> char \<Rightarrow> bool" where
  "radix_digit r c = (case digit_of c of None \<Rightarrow> False | Some d \<Rightarrow> d < r)"

definition radix_value :: "int \<Rightarrow> string \<Rightarrow> int" where
  "radix_value r z =
     foldl (\<lambda>n c. r * n + (case digit_of c of None \<Rightarrow> 0 | Some d \<Rightarrow> d)) 0 z"

definition parseInt :: "string \<Rightarrow> jsnum" where
  "parseInt s =
     (let t = dropWhile is_white_space s;
          neg = (take 1 t = ''-'');
          u = (if take 1 t = ''-'' \<or> take 1 t = ''+'' then drop 1 t else t);
          hex = (take 2 u = ''0x'' \<or> take 2 u = ''0X'');
          r = (if hex then 16 else 10);
          z = takeWhile (radix_digit r) (if hex then drop 2 u else u)
      in if z = [] then NaN
         else Num ((if neg then - 1 else 1) * radix_value r z))"

text \<open>\<open>new Date(v)\<close> for a string that may be absent.\<close>

fun new_Date :: "env \<Rightarrow> string nullable \<Rightarrow> jsdate" where
  "new_Date e Undefined = Date NaN"
| "new_Date e Null = Date (Num 0)"
| "new_Date e (Val v) = Date (Date_parse e v)"

text \<open>\<open>getFullYear()\<close> and \<open>getMonth()\<close> read the date in local time.\<close>

fun getFullYear :: "env \<Rightarrow> jsdate \<Rightarrow> jsnum" where
  "getFullYear e (Date NaN) = NaN"
| "getFullYear e (Date (Num t)) =
     (case civil_from_days ((t + LocalTZA e t) div 86400000) of (y, m, d) \<Rightarrow> Num y)"

fun getMonth :: "env \<Rightarrow> jsdate \<Rightarrow> jsnum" where
  "getMonth e (Date NaN) = NaN"
| "getMonth e (Date (Num t)) =
     (case civil_from_days ((t + LocalTZA e t) div 86400000) of (y, m, d) \<Rightarrow> Num (m - 1))"

definition startsWith :: "string \<Rightarrow> string \<Rightarrow> bool" where
  "startsWith s pre = (take (length pre) s = pre)"

text \<open>The identifier of a subject is a string or a number; in the catalogue it is a
  string. \<open>==\<close> compares two strings as they are and converts the string to compare it
  with a number; \<open>NaN\<close> equals nothing.\<close>

datatype js_id = IdStr string | IdNum jsnum

fun num_eq :: "jsnum \<Rightarrow> jsnum \<Rightarrow> bool" where
  "num_eq (Num a) (Num b) = (a = b)"
| "num_eq _ _ = False"

fun loose_eq :: "env \<Rightarrow> string \<Rightarrow> js_id \<Rightarrow> bool" where
  "loose_eq e s (IdStr t) = (s = t)"
| "loose_eq e s (IdNum n) = num_eq (StringToNumber e s) n"

section \<open>The methods\<close>

text \<open>Reading a property of the value \<open>json()\<close> gave, or destructuring it, throws a
  \<open>TypeError\<close> on \<open>null\<close>.\<close>

definition as_object :: "json_value \<Rightarrow> state \<Rightarrow> json_object outcome" where
  "as_object j s = (case j of JsonNull \<Rightarrow> (Inl TypeError, s) | JsonObject obj \<Rightarrow> (Inr obj, s))"

definition post :: "string \<Rightarrow> params" where
  "post body = \<lparr>p_method = Val ''post'', p_headers = [], p_body = Val body\<rparr>"

definition with_at :: "parser \<Rightarrow> params" where
  "with_at p = \<lparr>p_method = Undefined, p_headers = [(''at'', this_at p)], p_body = Undefined\<rparr>"

subsection \<open>appContext\<close>

definition find_source :: "string \<Rightarrow> filter_source list \<Rightarrow> filter_source option" where
  "find_source fid fs = find (\<lambda>f. filterId f = fid) fs"

text \<open>The last callback of \<open>appContext\<close>: four assignments in order; reading a property
  of a source that was not found throws, and what was assigned before stays.\<close>

definition store_identity :: "env \<Rightarrow> filter_source list \<Rightarrow> state \<Rightarrow> unit outcome" where
  "store_identity e fs s =
     (case find_source ''SID'' fs of
        None \<Rightarrow> (Inl TypeError, s)
      | Some userId \<Rightarrow>
     let s1 = s\<lparr>session := (session s)
                 \<lparr>this_userId := Val (parseInt (str (defaultValue userId)))\<rparr>\<rparr> in
     case find_source ''PCLID_IUP'' fs of
        None \<Rightarrow> (Inl TypeError, s1)
      | Some classId \<Rightarrow>
     let s2 = s1\<lparr>session := (session s1)
                 \<lparr>this_classId := Val (parseInt (str (defaultValue classId)))\<rparr>\<rparr> in
     case find_source ''SGID'' fs of
        None \<Rightarrow> (Inl TypeError, s2)
      | Some sgid \<Rightarrow>
     case items sgid of
        None \<Rightarrow> (Inl TypeError, s2)
      | Some its \<Rightarrow>
     let s3 = s2\<lparr>session := (session s2)
                 \<lparr>subjects :=
                    map (\<lambda>i. \<lparr>subject_id = item_value i, subject_name = item_title i\<rparr>) its\<rparr>\<rparr> in
     case find_source ''period'' fs of
        None \<Rightarrow> (Inl TypeError, s3)
      | Some period_source \<Rightarrow>
     case defaultRange period_source of
        None \<Rightarrow> (Inl TypeError, s3)
      | Some r \<Rightarrow>
         (Inr (), s3\<lparr>session := (session s3)
                 \<lparr>studyYear := \<lparr>sy_start = Val (new_Date e (range_start r)),
                                sy_end = Val (new_Date e (range_end r))\<rparr>\<rparr>\<rparr>))"

definition store_context :: "app_context \<Rightarrow> parser \<Rightarrow> parser" where
  "store_context ctx p =
     p\<lparr>this_at := ctx_at ctx,
       this_ver := ctx_ver ctx,
       this_yearId := ctx_yearId ctx,
       this_skoolId := ctx_schoolId ctx,
       this_currYear := ctx_currYear ctx,
       this_skoolName := ctx_fullSchoolName ctx,
       this_dateFormat := ctx_dateFormat ctx,
       this_timeFormat := ctx_timeFormat ctx,
       this_serverTimeZone := ctx_serverTimeZone ctx\<rparr>"

definition appContext :: "env \<Rightarrow> state \<Rightarrow> unit outcome" where
  "appContext e s =
     and_then
       (fetch (net e)
          (''/asp/MySettings/MySettings.asp?at='' @ str (this_at (session s)))
          (post (''at='' @ str (this_at (session s)) @ ''&'' @
                 ''ver='' @ str (this_ver (session s)) @ ''&''))
          s)
       (\<lambda>res s. and_then (res_text res s)
       (\<lambda>txt s.
          case parserAppContext e txt of
            Inl err \<Rightarrow> (Inl err, s)
          | Inr ctx \<Rightarrow>
       (let s1 = s\<lparr>session := store_context ctx (session s)\<rparr> in
        and_then (fetch (net e) ''/webapi/reports/studentgrades'' (with_at (session s1)) s1)
       (\<lambda>res s. and_then (res_json res s)
       (\<lambda>j s. and_then (as_object j s)
       (\<lambda>data s.
          case filterSources data of
            None \<Rightarrow> (Inl TypeError, s)
          | Some fs \<Rightarrow> store_identity e fs s))))))"

subsection \<open>logIn and logOut\<close>

text \<open>The callback that receives \<open>{lt, ver, salt}\<close>: it stores the version and builds
  the body of the login form.\<close>

definition login_digest :: "env \<Rightarrow> parser \<Rightarrow> json_object \<Rightarrow> string" where
  "login_digest e p seed = md5 e (str (salt seed) @ md5 e (this_password p))"

definition login_body :: "env \<Rightarrow> parser \<Rightarrow> json_object \<Rightarrow> string" where
  "login_body e p seed =
     (let password = login_digest e p seed in
      ''lt='' @ str (lt seed) @ ''&'' @
      ''ver='' @ str (ver seed) @ ''&'' @
      ''pw2='' @ password @ ''&'' @
      ''UN='' @ encodeURI (this_login p) @ ''&'' @
      ''PW='' @ take (length (this_password p)) password @ ''&'' @
      ''LoginType=1&'' @
      this_ttslogin p)"

text \<open>The callback that receives \<open>{at, timeOut}\<close>: it stores the token and the expiry
  and, when no user id is known, goes on to \<open>appContext\<close>. \<open>now\<close> is what \<open>Date.now()\<close>
  returns there.\<close>

definition logIn_token :: "env \<Rightarrow> int \<Rightarrow> json_object \<Rightarrow> state \<Rightarrow> unit outcome" where
  "logIn_token e now reply s =
     (let s3 = s\<lparr>session := (session s)
                \<lparr>this_at := at reply,
                 this_sessionTime := Val (js_add (Num now) (ToNumber (timeOut reply)))\<rparr>\<rparr> in
      if falsy_number (this_userId (session s3)) then appContext e s3
      else (Inr (), s3))"

text \<open>The callback that receives \<open>{lt, ver, salt}\<close>, and the chain after it.\<close>

definition logIn_seed :: "env \<Rightarrow> int \<Rightarrow> json_object \<Rightarrow> state \<Rightarrow> unit outcome" where
  "logIn_seed e now seed s =
     (let s2 = s\<lparr>session := (session s)\<lparr>this_ver := ver seed\<rparr>\<rparr> in
      and_then
        (fetch (net e) ''/webapi/login'' (post (login_body e (session s2) seed)) s2)
        (\<lambda>res s. and_then (res_json res s)
        (\<lambda>j s. and_then (as_object j s) (logIn_token e now))))"

definition logIn :: "env \<Rightarrow> int \<Rightarrow> state \<Rightarrow> unit outcome" where
  "logIn e now s =
     and_then (fetch (net e) [] no_params s)
       (\<lambda>res s.
          let s1 = s\<lparr>session := (session s)\<lparr>this_secure := startsWith (url res) ''https''\<rparr>\<rparr> in
          and_then
            (fetch (net e) ''/webapi/auth/getdata''
               \<lparr>p_method = Val ''post'', p_headers = [], p_body = Undefined\<rparr> s1)
            (\<lambda>res s. and_then (res_json res s)
            (\<lambda>j s. and_then (as_object j s) (logIn_seed e now))))"

definition logOut :: "env \<Rightarrow> state \<Rightarrow> unit outcome" where
  "logOut e s =
     and_then
       (fetch (net e) ''/asp/logout.asp''
          (post (''at='' @ str (this_at (session s)) @ ''&'' @
                 ''ver='' @ str (this_ver (session s))))
          s)
       (\<lambda>res s.
          (Inr (), s\<lparr>session := (session s)
                     \<lparr>this_at := Null, this_ver := Null, this_sessionTime := Null\<rparr>\<rparr>))"

subsection \<open>The date-scoped methods\<close>

text \<open>\<open>diary\<close> resolves with the JSON of the response. \<open>birthdays\<close> hands the text of the
  response to \<open>parseBirthday\<close> of the HTML parsers, which is outside these sources; its
  model ends with that text.\<close>

definition diary_path :: "parser \<Rightarrow> jsdate \<Rightarrow> jsdate \<Rightarrow> string" where
  "diary_path p start endDate =
     ''/webapi/student/diary'' @
     ''?vers='' @ str (this_ver p) @
     ''&yearId='' @ str (this_yearId p) @
     ''&weekEnd='' @ str (toJSON endDate) @
     ''&studentId='' @ num_str (this_userId p) @
     ''&weekStart='' @ str (toJSON start)"

definition diary :: "env \<Rightarrow> jsdate \<Rightarrow> jsdate \<Rightarrow> state \<Rightarrow> json_value outcome" where
  "diary e start endDate s =
     (if \<not> checkDates (session s) [start, endDate] then
        (Inl (Error ''The start and end values is not valid.''), s)
      else if js_lt (js_sub (getTime endDate) (getTime start)) (Num 86400000) then
        (Inl (Error ''The interval should be more than a day.''), s)
      else
        and_then
          (fetch (net e) (diary_path (session s) start endDate) (with_at (session s)) s)
          res_json)"

text \<open>The report methods end by calling \<open>reportFile\<close> of the helpers, which is outside
  these sources, with the path of the queue and the filters. The model of a report
  method is what the method does itself: it throws, or it makes this call.\<close>

datatype filter_value = NumberValue "jsnum nullable" | StringValue string | IdValue js_id

record report_filter =
  filter_id :: string
  filter_value :: filter_value

record report_call =
  report_path :: string
  report_filters :: "report_filter list"

definition period :: "jsdate \<Rightarrow> jsdate \<Rightarrow> string" where
  "period start endDate = str (toJSON start) @ '' - '' @ str (toJSON endDate)"

definition subject :: "env \<Rightarrow> js_id \<Rightarrow> jsdate \<Rightarrow> jsdate \<Rightarrow> parser \<Rightarrow> error + report_call" where
  "subject e ident start endDate p =
     (if find (\<lambda>s. loose_eq e (subject_id s) ident) (subjects p) = None then
        Inl (Error ''The id value is not valid.'')
      else if \<not> checkDates p [start, endDate] then
        Inl (Error ''The start and end values is not valid.'')
      else
        Inr \<lparr>report_path = ''/webapi/reports/studentgrades/queue'',
             report_filters =
               [\<lparr>filter_id = ''SID'', filter_value = NumberValue (this_userId p)\<rparr>,
                \<lparr>filter_id = ''PCLID_IUP'',
                 filter_value = StringValue (num_str (this_classId p) @ ''_0'')\<rparr>,
                \<lparr>filter_id = ''SGID'', filter_value = IdValue ident\<rparr>,
                \<lparr>filter_id = ''period'', filter_value = StringValue (period start endDate)\<rparr>]\<rparr>)"

definition journal :: "jsdate \<Rightarrow> jsdate \<Rightarrow> parser \<Rightarrow> error + report_call" where
  "journal start endDate p =
     (if \<not> checkDates p [start, endDate] then
        Inl (Error ''The start and end values is not valid.'')
      else
        Inr \<lparr>report_path = ''/webapi/reports/studenttotal/queue'',
             report_filters =
               [\<lparr>filter_id = ''SID'', filter_value = NumberValue (this_userId p)\<rparr>,
                \<lparr>filter_id = ''PCLID'', filter_value = NumberValue (this_classId p)\<rparr>,
                \<lparr>filter_id = ''period'', filter_value = StringValue (period start endDate)\<rparr>]\<rparr>)"

definition birthdays_body :: "env \<Rightarrow> parser \<Rightarrow> jsdate \<Rightarrow> bool \<Rightarrow> string" where
  "birthdays_body e p date withoutParens =
     ''AT='' @ str (this_at p) @ ''&'' @
     ''VER='' @ str (this_ver p) @ ''&'' @
     ''Year='' @ string_of_num (getFullYear e date) @ ''&'' @
     ''Month='' @ string_of_num (js_add (getMonth e date) (Num 1)) @ ''&'' @
     ''PCLID='' @ num_str (this_classId p) @ ''&'' @
     ''ViewType=1&'' @
     ''LoginType=0&'' @
     ''BIRTH_STAFF=1&'' @
     ''BIRTH_PARENT='' @ (if withoutParens then ''0'' else ''4'') @ ''&'' @
     ''BIRTH_STUDENT=2&'' @
     ''From_MonthBirth=1&'' @
     ''MonthYear='' @ string_of_num (js_add (getMonth e date) (Num 1)) @ '','' @
       string_of_num (getFullYear e date)"

definition birthdays :: "env \<Rightarrow> jsdate \<Rightarrow> bool \<Rightarrow> state \<Rightarrow> string outcome" where
  "birthdays e date withoutParens s =
     (if \<not> checkDates (session s) [date] then
        (Inl (Error ''The date values is not valid.''), s)
      else
        and_then
          (fetch (net e) ''/asp/Calendar/MonthBirth.asp''
             (post (birthdays_body e (session s) date withoutParens)) s)
          res_text)"

section \<open>The coalescing proxy\<close>

text \<open>
  Modelled from the spec: the proxy (\<open>Protect\<close>) that wraps the public methods is not among
  the sources; the README names it and the spec describes it. A key is the identity of
  the operation with the list of the argument values, compared by value. The registry maps
  a key in flight to the pending handle of its execution. An invocation whose key has an
  entry returns the handle already in flight; otherwise it starts the operation,
  registers the new handle under the key and returns it. When an execution settles, with
  a value or with a failure, its key is removed from the registry and the outcome goes
  to every holder of the handle. A handle is the number of the execution it stands for.
\<close>

datatype argument = StringArg string | NumberArg jsnum | DateArg jsdate | BoolArg bool

type_synonym key = "string \<times> argument list"

datatype 'r settlement = Resolved 'r | Rejected error

record 'r proxy =
  registry :: "key \<rightharpoonup> nat"
  executions :: "key list"
  settled :: "nat \<rightharpoonup> 'r settlement"

definition invoke :: "key \<Rightarrow> 'r proxy \<Rightarrow> nat \<times> 'r proxy" where
  "invoke k px =
     (case registry px k of
        Some h \<Rightarrow> (h, px)
      | None \<Rightarrow>
          (length (executions px),
           px\<lparr>registry := (registry px)(k \<mapsto> length (executions px)),
              executions := executions px @ [k]\<rparr>))"

definition settle :: "nat \<Rightarrow> 'r settlement \<Rightarrow> 'r proxy \<Rightarrow> 'r proxy" where
  "settle h out px =
     px\<lparr>registry := (\<lambda>k. if registry px k = Some h then None else registry px k),
        settled := (settled px)(h \<mapsto> out)\<rparr>"

text \<open>What happens at the proxy while operations are suspended: a caller invokes an
  operation, or an execution settles.\<close>

datatype 'r event = Invoke key | Settle nat "'r settlement"

fun step :: "'r proxy \<Rightarrow> 'r event \<Rightarrow> 'r proxy" where
  "step px (Invoke k) = snd (invoke k px)"
| "step px (Settle h out) = settle h out px"

fun settles :: "nat \<Rightarrow> 'r event \<Rightarrow> bool" where
  "settles h (Invoke k) = False"
| "settles h (Settle h' out) = (h' = h)"

definition idle :: "string proxy" where
  "idle = \<lparr>registry = Map.empty, executions = [], settled = Map.empty\<rparr>"

section \<open>An example school\<close>

text \<open>
  A concrete environment and concrete sessions, for the examples that follow the
  theorems. The transport answers the \<open>n\<close>-th request with the \<open>n\<close>-th reply of a script
  and fails when the script is over; the host runs in UTC; the built-ins are given on
  the strings that occur in the examples.
\<close>

definition scripted :: "exchange list \<Rightarrow> transport" where
  "scripted replies log req =
     (if length log < length replies then replies ! length log else Failed)"

definition example_context :: app_context where
  "example_context =
     \<lparr>ctx_at = Val ''AT-7731'', ctx_ver = Val ''VER-52'', ctx_yearId = Val ''2023'',
      ctx_schoolId = Val ''12'', ctx_currYear = Val ''2023/2024'',
      ctx_fullSchoolName = Val ''School 12'', ctx_dateFormat = Val ''d.mm.yy'',
      ctx_timeFormat = Val ''H:nn'', ctx_serverTimeZone = Val (Num 3)\<rparr>"

definition example_parserAppContext :: "string \<Rightarrow> error + app_context" where
  "example_parserAppContext txt =
     (if txt = ''settings page'' then Inr example_context else Inl ParserError)"

definition example_Date_parse :: "string \<Rightarrow> jsnum" where
  "example_Date_parse v =
     (if v = ''2023-09-01T00:00:00.000Z'' then Num 1693526400000
      else if v = ''2024-05-25T00:00:00.000Z'' then Num 1716595200000
      else NaN)"

definition example_StringToNumber :: "string \<Rightarrow> jsnum" where
  "example_StringToNumber v = (if v = ''41'' then Num 41 else if v = ''42'' then Num 42 else NaN)"

definition utc :: "int \<Rightarrow> int" where
  "utc t = 0"

definition example_env :: "exchange list \<Rightarrow> env" where
  "example_env replies =
     \<lparr>net = scripted replies, md5 = md5_rfc1321,
      parserAppContext = example_parserAppContext, Date_parse = example_Date_parse,
      StringToNumber = example_StringToNumber, LocalTZA = utc\<rparr>"

text \<open>A new session, and a session after a login in the school year from 2023-09-01 to
  2024-05-25.\<close>

definition new_session :: parser where
  "new_session = constructor ''sgo.example.org'' ''pupil'' ''secret'' ''ttslogin=1''"

definition school_session :: parser where
  "school_session =
     new_session
       \<lparr>this_at := Val ''AT-7731'', this_ver := Val ''VER-52'',
        this_cookie := [(''NSSESSIONID'', ''abc'')],
        this_sessionTime := Val (Num 1693875600000),
        this_userId := Val (Num 1001), this_yearId := Val ''2023'',
        this_classId := Val (Num 77),
        subjects := [\<lparr>subject_id = ''41'', subject_name = ''Algebra''\<rparr>,
                     \<lparr>subject_id = ''42'', subject_name = ''Physics''\<rparr>],
        studyYear := \<lparr>sy_start = Val (Date (Num 1693526400000)),
                      sy_end = Val (Date (Num 1716595200000))\<rparr>\<rparr>"

definition ok_response :: response where
  "ok_response =
     \<lparr>ok = True, url = ''https://sgo.example.org/'', set_cookie = None,
      body_text = [], json = None\<rparr>"

definition school_state :: state where
  "school_state = \<lparr>session = school_session, sent = []\<rparr>"

text \<open>Midnight UTC of 2023-09-05, 2023-09-06 and 2024-06-01.\<close>

definition sept_5 :: jsdate where
  "sept_5 = Date (Num 1693872000000)"

definition sept_6 :: jsdate where
  "sept_6 = Date (Num 1693958400000)"

definition june_1 :: jsdate where
  "june_1 = Date (Num 1717200000000)"

definition new_state :: state where
  "new_state = \<lparr>session = new_session, sent = []\<rparr>"

text \<open>A response that is not ok and a response that is ok, each with cookies to set.\<close>

definition denied :: response where
  "denied =
     \<lparr>ok = False, url = ''https://sgo.example.org/webapi/announcements'',
      set_cookie = Some ''sid=xyz; path=/'', body_text = ''Forbidden'', json = None\<rparr>"

definition granted :: response where
  "granted =
     \<lparr>ok = True, url = ''https://sgo.example.org/webapi/announcements'',
      set_cookie = Some ''sid=xyz; path=/, NSSESSIONID=def; path=/; HttpOnly'',
      body_text = ''[]'', json = None\<rparr>"

text \<open>What \<open>headers.get('set-cookie')\<close> gives for the two header values
  \<open>a=1; expires=Wed, 21 Oct 2015 07:28:00 GMT\<close> and \<open>b=2; path=/\<close>: the transport joins
  the values of a repeated header with a comma and a space.\<close>

definition two_cookies :: response where
  "two_cookies =
     \<lparr>ok = True, url = ''https://sgo.example.org/'',
      set_cookie = Some ''a=1; expires=Wed, 21 Oct 2015 07:28:00 GMT, b=2; path=/'',
      body_text = [], json = None\<rparr>"

text \<open>One header value whose \<open>Expires\<close> attribute is written with a capital.\<close>

definition capital_expires :: response where
  "capital_expires =
     \<lparr>ok = True, url = ''https://sgo.example.org/'',
      set_cookie = Some ''sid=abc; Expires=Wed, 21 Oct 2015 07:28:00 GMT; Path=/'',
      body_text = [], json = None\<rparr>"

text \<open>A session whose password is longer than a digest: 33 letters.\<close>

definition long_password_session :: parser where
  "long_password_session =
     constructor ''sgo.example.org'' ''pupil'' ''aaaaaaaaaaaaaaaaaaaaaaaaaaaaaaaaa'' ''ttslogin=1''"

text \<open>The replies of a server to a first login: the page of the host, the seed of the
  login, the token, the page of the settings and the filters of the grades report.\<close>

definition seed_object :: json_object where
  "seed_object =
     \<lparr>lt = Val ''804'', ver = Val ''VER-51'', salt = Val ''salt'', at = Undefined,
      timeOut = Undefined, filterSources = None\<rparr>"

definition token_object :: json_object where
  "token_object =
     \<lparr>lt = Undefined, ver = Undefined, salt = Undefined, at = Val ''AT-7730'',
      timeOut = Val (Num 3600000), filterSources = None\<rparr>"

definition grades_object :: json_object where
  "grades_object =
     \<lparr>lt = Undefined, ver = Undefined, salt = Undefined, at = Undefined,
      timeOut = Undefined,
      filterSources = Some
        [\<lparr>filterId = ''SID'', defaultValue = Val ''1001'', items = None, defaultRange = None\<rparr>,
         \<lparr>filterId = ''PCLID_IUP'', defaultValue = Val ''77_0'', items = None,
          defaultRange = None\<rparr>,
         \<lparr>filterId = ''SGID'', defaultValue = Undefined,
          items = Some [\<lparr>item_value = ''41'', item_title = ''Algebra''\<rparr>,
                        \<lparr>item_value = ''42'', item_title = ''Physics''\<rparr>],
          defaultRange = None\<rparr>,
         \<lparr>filterId = ''period'', defaultValue = Undefined, items = None,
          defaultRange = Some \<lparr>range_start = Val ''2023-09-01T00:00:00.000Z'',
                                range_end = Val ''2024-05-25T00:00:00.000Z''\<rparr>\<rparr>]\<rparr>"

definition login_replies :: "exchange list" where
  "login_replies =
     [Response (ok_response\<lparr>set_cookie := Some ''NSSESSIONID=abc; path=/; HttpOnly''\<rparr>),
      Response (ok_response\<lparr>json := Some (JsonObject seed_object)\<rparr>),
      Response (ok_response\<lparr>json := Some (JsonObject token_object)\<rparr>),
      Response (ok_response\<lparr>body_text := ''settings page''\<rparr>),
      Response (ok_response\<lparr>json := Some (JsonObject grades_object)\<rparr>)]"

text \<open>Callers at an idle proxy: while the first \<open>logIn\<close> is in flight, a second and a third
  \<open>logIn\<close> are invoked, and a \<open>diary\<close> is invoked and settles.\<close>

definition login_key :: key where
  "login_key = (''logIn'', [])"

definition diary_key :: key where
  "diary_key = (''diary'', [DateArg sept_5, DateArg sept_6])"

definition while_logging_in :: "string event list" where
  "while_logging_in =
     [Invoke login_key, Invoke diary_key, Settle 1 (Resolved ''week''), Invoke login_key]"

text \<open>The replies of a server to a later login, when the user id is known: the page of the
  host, the seed and a token object.\<close>

definition relogin_replies :: "json_object \<Rightarrow> exchange list" where
  "relogin_replies token =
     [Response ok_response,
      Response (ok_response\<lparr>json := Some (JsonObject seed_object)\<rparr>),
      Response (ok_response\<lparr>json := Some (JsonObject token)\<rparr>)]"

section \<open>Properties\<close>

lemma snd_and_then_res_json: "snd (and_then r res_json) = snd r"
  by (cases r) (auto simp: and_then_def res_json_def split: sum.splits option.splits)

lemma sent_fetch:
  "sent (snd (fetch t path params s)) = sent s @ [build_request (session s) path params]"
  by (simp add: fetch_def Let_def split: exchange.splits)

subsection \<open>The guards of the diary\<close>

text \<open>
  Claim C1. For every pair of dates: if either date is before the start of the school
  year, after its end, or has a null \<open>toJSON()\<close>, or if the end minus the start is less
  than 24 hours (\<open>8.64e7\<close> ms), then \<open>diary\<close> fails with the \<open>Error\<close> of its validation
  and leaves the state as it was, the list of requests sent included: no request is
  issued. If both dates lie within the school year and the end minus the start is at
  least 24 hours, \<open>checkDates\<close> passes and \<open>diary\<close> issues its request: it is the fetch of
  the diary path, and exactly that request is added to the requests sent. Before and after
  are the comparisons \<open><\<close> and \<open>>\<close> of the source.
\<close>

theorem diary_date_validation:
  "((js_lt (getTime start) (year_start (session s)) \<or>
     js_gt (getTime start) (year_end (session s)) \<or>
     is_nullish (toJSON start) \<or>
     js_lt (getTime endDate) (year_start (session s)) \<or>
     js_gt (getTime endDate) (year_end (session s)) \<or>
     is_nullish (toJSON endDate) \<or>
     js_lt (js_sub (getTime endDate) (getTime start)) (Num 86400000))
    \<longrightarrow> (\<exists>msg. diary e start endDate s = (Inl (Error msg), s))) \<and>
   ((\<exists>lo hi a b.
        year_start (session s) = Num lo \<and> year_end (session s) = Num hi \<and>
        start = Date (Num a) \<and> endDate = Date (Num b) \<and>
        lo \<le> a \<and> a \<le> hi \<and> lo \<le> b \<and> b \<le> hi \<and> 86400000 \<le> b - a)
    \<longrightarrow> checkDates (session s) [start, endDate] \<and>
        diary e start endDate s =
          and_then
            (fetch (net e) (diary_path (session s) start endDate) (with_at (session s)) s)
            res_json \<and>
        sent (snd (diary e start endDate s)) =
          sent s @
          [build_request (session s) (diary_path (session s) start endDate)
             (with_at (session s))])"
proof (rule conjI; rule impI)
  assume bad:
    "js_lt (getTime start) (year_start (session s)) \<or>
     js_gt (getTime start) (year_end (session s)) \<or>
     is_nullish (toJSON start) \<or>
     js_lt (getTime endDate) (year_start (session s)) \<or>
     js_gt (getTime endDate) (year_end (session s)) \<or>
     is_nullish (toJSON endDate) \<or>
     js_lt (js_sub (getTime endDate) (getTime start)) (Num 86400000)"
  show "\<exists>msg. diary e start endDate s = (Inl (Error msg), s)"
  proof (cases "checkDates (session s) [start, endDate]")
    case False
    then show ?thesis by (simp add: diary_def del: checkDates.simps)
  next
    case True
    with bad have "js_lt (js_sub (getTime endDate) (getTime start)) (Num 86400000)"
      by (auto split: if_splits)
    with True show ?thesis by (simp add: diary_def del: checkDates.simps)
  qed
next
  assume "\<exists>lo hi a b.
        year_start (session s) = Num lo \<and> year_end (session s) = Num hi \<and>
        start = Date (Num a) \<and> endDate = Date (Num b) \<and>
        lo \<le> a \<and> a \<le> hi \<and> lo \<le> b \<and> b \<le> hi \<and> 86400000 \<le> b - a"
  then obtain lo hi a b where w:
    "year_start (session s) = Num lo" "year_end (session s) = Num hi"
    "start = Date (Num a)" "endDate = Date (Num b)"
    "lo \<le> a" "a \<le> hi" "lo \<le> b" "b \<le> hi" "86400000 \<le> b - a"
    by blast
  from w have c: "checkDates (session s) [start, endDate]"
    by (simp add: js_gt_def is_nullish_def)
  from w have i: "\<not> js_lt (js_sub (getTime endDate) (getTime start)) (Num 86400000)"
    by simp
  from c i have d: "diary e start endDate s =
      and_then
        (fetch (net e) (diary_path (session s) start endDate) (with_at (session s)) s)
        res_json"
    by (simp add: diary_def del: checkDates.simps)
  have "sent (snd (diary e start endDate s)) =
      sent s @
      [build_request (session s) (diary_path (session s) start endDate) (with_at (session s))]"
    unfolding d by (simp add: snd_and_then_res_json sent_fetch)
  with c d show "checkDates (session s) [start, endDate] \<and>
        diary e start endDate s =
          and_then
            (fetch (net e) (diary_path (session s) start endDate) (with_at (session s)) s)
            res_json \<and>
        sent (snd (diary e start endDate s)) =
          sent s @
          [build_request (session s) (diary_path (session s) start endDate)
             (with_at (session s))]"
    by simp
qed


text \<open>The scenario of the spec: in the school year from 2023-09-01 to 2024-05-25 the diary
  from 2023-09-05 to 2023-09-05 is too short, the diary from 2024-06-01 is out of range,
  an invalid date is refused, and the diary from 2023-09-05 to 2023-09-06 is requested.\<close>

lemmas example_defs =
  school_state_def school_session_def new_session_def constructor_def
  year_start_def year_end_def sept_5_def sept_6_def june_1_def

theorem diary_date_validation_witness:
  "(\<exists>msg. diary (example_env []) sept_5 sept_5 school_state = (Inl (Error msg), school_state)) \<and>
   (\<exists>msg. diary (example_env []) june_1 sept_6 school_state = (Inl (Error msg), school_state)) \<and>
   (\<exists>msg. diary (example_env []) (Date NaN) sept_6 school_state =
      (Inl (Error msg), school_state)) \<and>
   (checkDates (session school_state) [sept_5, sept_6] \<and>
    diary (example_env [Response ok_response]) sept_5 sept_6 school_state =
      and_then
        (fetch (net (example_env [Response ok_response]))
           (diary_path (session school_state) sept_5 sept_6)
           (with_at (session school_state)) school_state)
        res_json \<and>
    sent (snd (diary (example_env [Response ok_response]) sept_5 sept_6 school_state)) =
      sent school_state @
      [build_request (session school_state)
         (diary_path (session school_state) sept_5 sept_6)
         (with_at (session school_state))])"
proof (intro conjI)
  show "\<exists>msg. diary (example_env []) sept_5 sept_5 school_state = (Inl (Error msg), school_state)"
    by (rule diary_date_validation [THEN conjunct1, THEN mp]) (simp add: example_defs)
  show "\<exists>msg. diary (example_env []) june_1 sept_6 school_state = (Inl (Error msg), school_state)"
    by (rule diary_date_validation [THEN conjunct1, THEN mp])
      (simp add: example_defs js_gt_def)
  show "\<exists>msg. diary (example_env []) (Date NaN) sept_6 school_state =
      (Inl (Error msg), school_state)"
    by (rule diary_date_validation [THEN conjunct1, THEN mp]) (simp add: is_nullish_def)
  have within: "\<exists>lo hi a b.
        year_start (session school_state) = Num lo \<and>
        year_end (session school_state) = Num hi \<and>
        sept_5 = Date (Num a) \<and> sept_6 = Date (Num b) \<and>
        lo \<le> a \<and> a \<le> hi \<and> lo \<le> b \<and> b \<le> hi \<and> 86400000 \<le> b - a"
    by (simp add: example_defs)
  note pass = diary_date_validation
    [of sept_5 school_state sept_6 "example_env [Response ok_response]",
      THEN conjunct2, THEN mp, OF within]
  from pass show "checkDates (session school_state) [sept_5, sept_6]" by (rule conjunct1)
  from pass show "diary (example_env [Response ok_response]) sept_5 sept_6 school_state =
      and_then
        (fetch (net (example_env [Response ok_response]))
           (diary_path (session school_state) sept_5 sept_6)
           (with_at (session school_state)) school_state)
        res_json"
    by (rule conjunct2 [THEN conjunct1])
  from pass show "sent (snd (diary (example_env [Response ok_response]) sept_5 sept_6 school_state)) =
      sent school_state @
      [build_request (session school_state)
         (diary_path (session school_state) sept_5 sept_6)
         (with_at (session school_state))]"
    by (rule conjunct2 [THEN conjunct2])
qed

subsection \<open>Dates before the first login\<close>

lemma unset_year_rejects:
  assumes "studyYear p = \<lparr>sy_start = Null, sy_end = Null\<rparr>" and "getTime d \<noteq> Num 0"
  shows "js_lt (getTime d) (year_start p) \<or> js_gt (getTime d) (year_end p) \<or>
         is_nullish (toJSON d)"
proof (cases d)
  case (Date t)
  show ?thesis
  proof (cases t)
    case NaN
    with Date show ?thesis by (simp add: is_nullish_def)
  next
    case (Num n)
    with Date assms have "n < 0 \<or> 0 < n" by auto
    with Date Num assms(1) show ?thesis
      by (auto simp: year_start_def year_end_def js_gt_def)
  qed
qed

text \<open>
  Claim C10. The constructor leaves both bounds of the school year \<open>null\<close>. While they
  are \<open>null\<close>, \<open>checkDates\<close> returns false for every date whose time value is not zero
  (an invalid date included), so \<open>birthdays\<close> with such a date, and \<open>diary\<close>, \<open>subject\<close>
  and \<open>journal\<close> with such a date as start or end, fail with the \<open>Error\<close> of a validation
  guard; \<open>diary\<close> and \<open>birthdays\<close> leave the state as it was, so no request is sent, and
  \<open>subject\<close> and \<open>journal\<close> throw before they call \<open>reportFile\<close>.
\<close>

theorem unset_year_rejects_dates:
  "studyYear (constructor h l pw t) = \<lparr>sy_start = Null, sy_end = Null\<rparr> \<and>
   (studyYear (session s) = \<lparr>sy_start = Null, sy_end = Null\<rparr> \<longrightarrow>
      (getTime d \<noteq> Num 0 \<longrightarrow>
         \<not> checkDates (session s) [d] \<and>
         (\<exists>msg. birthdays e d w s = (Inl (Error msg), s))) \<and>
      (getTime a \<noteq> Num 0 \<or> getTime b \<noteq> Num 0 \<longrightarrow>
         \<not> checkDates (session s) [a, b] \<and>
         (\<exists>msg. diary e a b s = (Inl (Error msg), s)) \<and>
         (\<exists>msg. subject e i a b (session s) = Inl (Error msg)) \<and>
         (\<exists>msg. journal a b (session s) = Inl (Error msg))))"
proof (intro conjI impI)
  show "studyYear (constructor h l pw t) = \<lparr>sy_start = Null, sy_end = Null\<rparr>"
    by (simp add: constructor_def)
next
  assume u: "studyYear (session s) = \<lparr>sy_start = Null, sy_end = Null\<rparr>"
    and d: "getTime d \<noteq> Num 0"
  from unset_year_rejects [OF u d] show c: "\<not> checkDates (session s) [d]" by simp
  then show "\<exists>msg. birthdays e d w s = (Inl (Error msg), s)"
    by (simp add: birthdays_def del: checkDates.simps)
next
  assume u: "studyYear (session s) = \<lparr>sy_start = Null, sy_end = Null\<rparr>"
    and ab: "getTime a \<noteq> Num 0 \<or> getTime b \<noteq> Num 0"
  from ab show c: "\<not> checkDates (session s) [a, b]"
  proof
    assume "getTime a \<noteq> Num 0"
    from unset_year_rejects [OF u this] show ?thesis by simp
  next
    assume "getTime b \<noteq> Num 0"
    from unset_year_rejects [OF u this] show ?thesis by simp
  qed
  then show "\<exists>msg. diary e a b s = (Inl (Error msg), s)"
    by (simp add: diary_def del: checkDates.simps)
  from c show "\<exists>msg. subject e i a b (session s) = Inl (Error msg)"
    by (simp add: subject_def del: checkDates.simps)
  from c show "\<exists>msg. journal a b (session s) = Inl (Error msg)"
    by (simp add: journal_def del: checkDates.simps)
qed

text \<open>On the new session of the example, with the dates 2023-09-05 and 2023-09-06.\<close>

theorem unset_year_rejects_dates_witness:
  "\<not> checkDates (session new_state) [sept_5] \<and>
   (\<exists>msg. birthdays (example_env []) sept_5 True new_state = (Inl (Error msg), new_state)) \<and>
   \<not> checkDates (session new_state) [sept_5, sept_6] \<and>
   (\<exists>msg. diary (example_env []) sept_5 sept_6 new_state = (Inl (Error msg), new_state)) \<and>
   (\<exists>msg. subject (example_env []) (IdStr ''41'') sept_5 sept_6 (session new_state) =
      Inl (Error msg)) \<and>
   (\<exists>msg. journal sept_5 sept_6 (session new_state) = Inl (Error msg))"
proof -
  have u: "studyYear (session new_state) = \<lparr>sy_start = Null, sy_end = Null\<rparr>"
    by (simp add: new_state_def new_session_def constructor_def)
  have d: "getTime sept_5 \<noteq> Num 0" by (simp add: sept_5_def)
  note r = unset_year_rejects_dates
    [of _ _ _ _ new_state sept_5 "example_env []" True sept_5 sept_6 "IdStr ''41''",
      THEN conjunct2, THEN mp, OF u]
  from r [THEN conjunct1, THEN mp, OF d] r [THEN conjunct2, THEN mp, OF disjI1, OF d]
  show ?thesis by blast
qed

subsection \<open>The guard of the subject report\<close>

lemma find_None_iff_catalogue:
  "(find P xs = None) = (\<forall>x\<in>set xs. \<not> P x)"
  by (induction xs) auto

text \<open>
  Claim C8. When no entry of the catalogue of the session has an id equal (\<open>==\<close>) to the
  requested subject id, \<open>subject\<close> throws the \<open>Error\<close> of the id guard, whatever the
  dates; it throws it first, before it checks the dates and before it calls
  \<open>reportFile\<close>, so no job is queued. When an entry has that id the guard passes: the
  result is not that error, and the call is made as soon as the dates pass too. Between
  two strings \<open>==\<close> is equality.
\<close>

theorem subject_id_guard:
  "((\<forall>s\<in>set (subjects p). \<not> loose_eq e (subject_id s) i) \<longrightarrow>
      subject e i a b p = Inl (Error ''The id value is not valid.'')) \<and>
   ((\<exists>s\<in>set (subjects p). loose_eq e (subject_id s) i) \<longrightarrow>
      subject e i a b p \<noteq> Inl (Error ''The id value is not valid.'') \<and>
      (checkDates p [a, b] \<longrightarrow> (\<exists>call. subject e i a b p = Inr call))) \<and>
   (loose_eq e x (IdStr y) \<longleftrightarrow> x = y)"
proof (intro conjI impI)
  assume "\<forall>s\<in>set (subjects p). \<not> loose_eq e (subject_id s) i"
  then have "find (\<lambda>s. loose_eq e (subject_id s) i) (subjects p) = None"
    by (simp add: find_None_iff_catalogue)
  then show "subject e i a b p = Inl (Error ''The id value is not valid.'')"
    by (simp add: subject_def)
next
  assume "\<exists>s\<in>set (subjects p). loose_eq e (subject_id s) i"
  then have f: "find (\<lambda>s. loose_eq e (subject_id s) i) (subjects p) \<noteq> None"
    by (simp add: find_None_iff_catalogue)
  then show "subject e i a b p \<noteq> Inl (Error ''The id value is not valid.'')"
    by (simp add: subject_def del: checkDates.simps)
  assume "checkDates p [a, b]"
  with f show "\<exists>call. subject e i a b p = Inr call"
    by (simp add: subject_def del: checkDates.simps)
next
  show "loose_eq e x (IdStr y) \<longleftrightarrow> x = y" by simp
qed

text \<open>In the example session the catalogue holds the ids 41 and 42.\<close>

theorem subject_id_guard_witness:
  "subject (example_env []) (IdStr ''43'') sept_5 sept_6 school_session =
     Inl (Error ''The id value is not valid.'') \<and>
   subject (example_env []) (IdNum (Num 7)) sept_5 sept_6 school_session =
     Inl (Error ''The id value is not valid.'') \<and>
   subject (example_env []) (IdStr ''42'') sept_5 sept_6 school_session \<noteq>
     Inl (Error ''The id value is not valid.'') \<and>
   (\<exists>call. subject (example_env []) (IdStr ''42'') sept_5 sept_6 school_session = Inr call) \<and>
   (\<exists>call. subject (example_env []) (IdNum (Num 42)) sept_5 sept_6 school_session = Inr call)"
proof -
  have absent: "\<forall>s\<in>set (subjects school_session).
      \<not> loose_eq (example_env []) (subject_id s) (IdStr ''43'')"
    by (simp add: school_session_def)
  have absent_num: "\<forall>s\<in>set (subjects school_session).
      \<not> loose_eq (example_env []) (subject_id s) (IdNum (Num 7))"
    by (simp add: school_session_def example_env_def example_StringToNumber_def)
  have present: "\<exists>s\<in>set (subjects school_session).
      loose_eq (example_env []) (subject_id s) (IdStr ''42'')"
    by (simp add: school_session_def)
  have present_num: "\<exists>s\<in>set (subjects school_session).
      loose_eq (example_env []) (subject_id s) (IdNum (Num 42))"
    by (simp add: school_session_def example_env_def example_StringToNumber_def)
  have dates: "checkDates school_session [sept_5, sept_6]"
    by (simp add: school_session_def year_start_def year_end_def sept_5_def sept_6_def
        js_gt_def is_nullish_def)
  note g = subject_id_guard [of school_session "example_env []" _ sept_5 sept_6]
  from g [THEN conjunct1, THEN mp, OF absent]
    g [THEN conjunct1, THEN mp, OF absent_num]
    g [THEN conjunct2, THEN conjunct1, THEN mp, OF present]
    g [THEN conjunct2, THEN conjunct1, THEN mp, OF present_num]
    dates
  show ?thesis by blast
qed

subsection \<open>The filters of a report\<close>

lemma checkDates_valid:
  assumes "checkDates p [a, b]"
  shows "\<exists>ta tb. a = Date (Num ta) \<and> b = Date (Num tb)"
proof -
  from assms have "\<not> is_nullish (toJSON a)" "\<not> is_nullish (toJSON b)"
    by (auto split: if_splits)
  then show ?thesis
    by (cases a rule: toJSON.cases; cases b rule: toJSON.cases) (auto simp: is_nullish_def)
qed

text \<open>
  Claim C5, amended. When the guards pass, each report method hands \<open>reportFile\<close> the path
  of its queue and its filters: the user id (\<open>SID\<close>) and a class filter (\<open>PCLID\<close> for the
  journal; \<open>PCLID_IUP\<close> with the suffix \<open>_0\<close> for the subject report), the subject id
  (\<open>SGID\<close>) for the subject report only, and the period. The period is the ISO string of
  the start, then a space, a hyphen and a space, then the ISO string of the end; both
  dates are valid when the guard has passed.
\<close>

theorem report_filter_set:
  "checkDates p [a, b] \<longrightarrow>
     (\<exists>ta tb. a = Date (Num ta) \<and> b = Date (Num tb) \<and>
        period a b = toISOString ta @ '' - '' @ toISOString tb) \<and>
     journal a b p =
       Inr \<lparr>report_path = ''/webapi/reports/studenttotal/queue'',
            report_filters =
              [\<lparr>filter_id = ''SID'', filter_value = NumberValue (this_userId p)\<rparr>,
               \<lparr>filter_id = ''PCLID'', filter_value = NumberValue (this_classId p)\<rparr>,
               \<lparr>filter_id = ''period'', filter_value = StringValue (period a b)\<rparr>]\<rparr> \<and>
     ((\<exists>s\<in>set (subjects p). loose_eq e (subject_id s) i) \<longrightarrow>
        subject e i a b p =
          Inr \<lparr>report_path = ''/webapi/reports/studentgrades/queue'',
               report_filters =
                 [\<lparr>filter_id = ''SID'', filter_value = NumberValue (this_userId p)\<rparr>,
                  \<lparr>filter_id = ''PCLID_IUP'',
                   filter_value = StringValue (num_str (this_classId p) @ ''_0'')\<rparr>,
                  \<lparr>filter_id = ''SGID'', filter_value = IdValue i\<rparr>,
                  \<lparr>filter_id = ''period'', filter_value = StringValue (period a b)\<rparr>]\<rparr>)"
proof (intro impI conjI)
  assume c: "checkDates p [a, b]"
  from checkDates_valid [OF c] obtain ta tb where "a = Date (Num ta)" "b = Date (Num tb)"
    by blast
  then show "\<exists>ta tb. a = Date (Num ta) \<and> b = Date (Num tb) \<and>
        period a b = toISOString ta @ '' - '' @ toISOString tb"
    by (simp add: period_def)
  from c show "journal a b p =
       Inr \<lparr>report_path = ''/webapi/reports/studenttotal/queue'',
            report_filters =
              [\<lparr>filter_id = ''SID'', filter_value = NumberValue (this_userId p)\<rparr>,
               \<lparr>filter_id = ''PCLID'', filter_value = NumberValue (this_classId p)\<rparr>,
               \<lparr>filter_id = ''period'', filter_value = StringValue (period a b)\<rparr>]\<rparr>"
    by (simp add: journal_def del: checkDates.simps)
  assume "\<exists>s\<in>set (subjects p). loose_eq e (subject_id s) i"
  then have "find (\<lambda>s. loose_eq e (subject_id s) i) (subjects p) \<noteq> None"
    by (simp add: find_None_iff_catalogue)
  with c show "subject e i a b p =
          Inr \<lparr>report_path = ''/webapi/reports/studentgrades/queue'',
               report_filters =
                 [\<lparr>filter_id = ''SID'', filter_value = NumberValue (this_userId p)\<rparr>,
                  \<lparr>filter_id = ''PCLID_IUP'',
                   filter_value = StringValue (num_str (this_classId p) @ ''_0'')\<rparr>,
                  \<lparr>filter_id = ''SGID'', filter_value = IdValue i\<rparr>,
                  \<lparr>filter_id = ''period'', filter_value = StringValue (period a b)\<rparr>]\<rparr>"
    by (simp add: subject_def del: checkDates.simps)
qed

lemma sept_5_iso: "toISOString 1693872000000 = ''2023-09-05T00:00:00.000Z''"
  by code_simp

lemma sept_6_iso: "toISOString 1693958400000 = ''2023-09-06T00:00:00.000Z''"
  by code_simp

text \<open>Claim C5 as stated fails: the period of the journal from 2023-09-05 to 2023-09-06
  is not the two serializations joined by a hyphen alone.\<close>

theorem period_separator_counterexample:
  "journal sept_5 sept_6 school_session =
     Inr \<lparr>report_path = ''/webapi/reports/studenttotal/queue'',
          report_filters =
            [\<lparr>filter_id = ''SID'', filter_value = NumberValue (Val (Num 1001))\<rparr>,
             \<lparr>filter_id = ''PCLID'', filter_value = NumberValue (Val (Num 77))\<rparr>,
             \<lparr>filter_id = ''period'',
              filter_value =
                StringValue ''2023-09-05T00:00:00.000Z - 2023-09-06T00:00:00.000Z''\<rparr>]\<rparr> \<and>
   str (toJSON sept_5) @ ''-'' @ str (toJSON sept_6) =
     ''2023-09-05T00:00:00.000Z-2023-09-06T00:00:00.000Z'' \<and>
   period sept_5 sept_6 \<noteq> str (toJSON sept_5) @ ''-'' @ str (toJSON sept_6)"
  by (simp add: journal_def period_def school_session_def new_session_def constructor_def
      year_start_def year_end_def sept_5_def sept_6_def js_gt_def is_nullish_def
      sept_5_iso sept_6_iso)

theorem report_filter_set_witness:
  "(\<exists>ta tb. sept_5 = Date (Num ta) \<and> sept_6 = Date (Num tb) \<and>
      period sept_5 sept_6 = toISOString ta @ '' - '' @ toISOString tb) \<and>
   journal sept_5 sept_6 school_session =
     Inr \<lparr>report_path = ''/webapi/reports/studenttotal/queue'',
          report_filters =
            [\<lparr>filter_id = ''SID'', filter_value = NumberValue (this_userId school_session)\<rparr>,
             \<lparr>filter_id = ''PCLID'', filter_value = NumberValue (this_classId school_session)\<rparr>,
             \<lparr>filter_id = ''period'', filter_value = StringValue (period sept_5 sept_6)\<rparr>]\<rparr> \<and>
   subject (example_env []) (IdStr ''42'') sept_5 sept_6 school_session =
     Inr \<lparr>report_path = ''/webapi/reports/studentgrades/queue'',
          report_filters =
            [\<lparr>filter_id = ''SID'', filter_value = NumberValue (this_userId school_session)\<rparr>,
             \<lparr>filter_id = ''PCLID_IUP'',
              filter_value = StringValue (num_str (this_classId school_session) @ ''_0'')\<rparr>,
             \<lparr>filter_id = ''SGID'', filter_value = IdValue (IdStr ''42'')\<rparr>,
             \<lparr>filter_id = ''period'', filter_value = StringValue (period sept_5 sept_6)\<rparr>]\<rparr>"
proof -
  have dates: "checkDates school_session [sept_5, sept_6]"
    by (simp add: school_session_def year_start_def year_end_def sept_5_def sept_6_def
        js_gt_def is_nullish_def)
  have present: "\<exists>s\<in>set (subjects school_session).
      loose_eq (example_env []) (subject_id s) (IdStr ''42'')"
    by (simp add: school_session_def)
  note r = report_filter_set
    [of school_session sept_5 sept_6 "example_env []" "IdStr ''42''", THEN mp, OF dates]
  from r [THEN conjunct1] r [THEN conjunct2, THEN conjunct1]
    r [THEN conjunct2, THEN conjunct2, THEN mp, OF present]
  show ?thesis by (intro conjI)
qed

subsection \<open>Cookies and the fetch wrapper\<close>

lemma match_value_extends:
  "match_value v cs = Some r \<Longrightarrow> v \<noteq> [] \<Longrightarrow> r \<noteq> []"
  by (induction cs arbitrary: v) (auto split: if_splits)

lemma value_at_nonempty: "value_at s = Some v \<Longrightarrow> v \<noteq> []"
  by (auto simp: value_at_def split: list.splits if_splits dest: match_value_extends)

lemma match_name_nonempty:
  "match_name n cs = Some (a, v) \<Longrightarrow> n \<noteq> [] \<Longrightarrow> a \<noteq> [] \<and> v \<noteq> []"
proof (induction cs arbitrary: n)
  case Nil
  then show ?case by simp
next
  case (Cons c cs)
  show ?case
  proof (cases "if c = CHR ''='' then value_at cs else None")
    case None
    with Cons.prems have "match_name (n @ [c]) cs = Some (a, v)"
      by (auto split: if_splits)
    then show ?thesis by (rule Cons.IH) simp
  next
    case (Some w)
    with Cons.prems have "a = n" "v = w" by auto
    moreover from Some have "w \<noteq> []" by (auto split: if_splits dest: value_at_nonempty)
    ultimately show ?thesis using Cons.prems by simp
  qed
qed

lemma match_cookie_nonempty:
  "match_cookie c = Some (n, v) \<Longrightarrow> n \<noteq> [] \<and> v \<noteq> []"
  by (auto simp: match_cookie_def split: list.splits if_splits dest: match_name_nonempty)

lemma map_of_set_property: "map_of (set_property k v obj) = (map_of obj)(k \<mapsto> v)"
  by (induction obj) (auto simp: fun_eq_iff)

lemma keys_set_property:
  "map fst (set_property k v obj) = map fst obj @ (if k \<in> fst ` set obj then [] else [k])"
proof (induction obj)
  case Nil
  show ?case by simp
next
  case (Cons x obj)
  obtain k' v' where x: "x = (k', v')" by (cases x)
  show ?case
  proof (cases "k' = k")
    case True
    with x show ?thesis by simp
  next
    case False
    with x Cons.IH show ?thesis by simp
  qed
qed

lemma absorb_frame: "absorb p c = p\<lparr>this_cookie := this_cookie (absorb p c)\<rparr>"
  by (simp add: absorb_def split: option.splits prod.splits)

lemma absorb_grows:
  "(\<exists>ks. map fst (this_cookie (absorb p c)) = map fst (this_cookie p) @ ks) \<and>
   (\<forall>k v. map_of (this_cookie p) k = Some v \<longrightarrow>
      (\<exists>v'. map_of (this_cookie (absorb p c)) k = Some v' \<and> (v' = v \<or> v' \<noteq> [])))"
  by (auto simp: absorb_def assign_def map_of_set_property keys_set_property
      split: option.splits prod.splits)

lemma foldl_absorb_frame:
  "foldl absorb p cs = p\<lparr>this_cookie := this_cookie (foldl absorb p cs)\<rparr>"
proof (induction cs arbitrary: p)
  case Nil
  show ?case by simp
next
  case (Cons c cs)
  have "foldl absorb (absorb p c) cs =
      (absorb p c)\<lparr>this_cookie := this_cookie (foldl absorb (absorb p c) cs)\<rparr>"
    by (rule Cons.IH)
  also have "\<dots> = p\<lparr>this_cookie := this_cookie (foldl absorb (absorb p c) cs)\<rparr>"
    by (subst absorb_frame) simp
  finally show ?case by simp
qed

lemma foldl_absorb_grows:
  "(\<exists>ks. map fst (this_cookie (foldl absorb p cs)) = map fst (this_cookie p) @ ks) \<and>
   (\<forall>k v. map_of (this_cookie p) k = Some v \<longrightarrow>
      (\<exists>v'. map_of (this_cookie (foldl absorb p cs)) k = Some v' \<and> (v' = v \<or> v' \<noteq> [])))"
proof (induction cs arbitrary: p)
  case Nil
  show ?case by simp
next
  case (Cons c cs)
  note step = absorb_grows [of p c]
  note rest = Cons.IH [of "absorb p c"]
  show ?case
  proof (intro conjI allI impI)
    from step rest show "\<exists>ks. map fst (this_cookie (foldl absorb p (c # cs))) =
        map fst (this_cookie p) @ ks"
      by auto
  next
    fix k v
    assume "map_of (this_cookie p) k = Some v"
    with step obtain v1 where v1: "map_of (this_cookie (absorb p c)) k = Some v1"
      "v1 = v \<or> v1 \<noteq> []" by blast
    with rest obtain v2 where "map_of (this_cookie (foldl absorb (absorb p c) cs)) k = Some v2"
      "v2 = v1 \<or> v2 \<noteq> []" by blast
    with v1 show "\<exists>v'. map_of (this_cookie (foldl absorb p (c # cs))) k = Some v' \<and>
        (v' = v \<or> v' \<noteq> [])"
      by auto
  qed
qed

lemma saveCookie_frame: "saveCookie p res = p\<lparr>this_cookie := this_cookie (saveCookie p res)\<rparr>"
proof (cases "set_cookie res")
  case None
  then show ?thesis by (simp add: saveCookie_def)
next
  case (Some h)
  then show ?thesis
    using foldl_absorb_frame [of p "split_comma_space (strip_expires h)"]
    by (simp add: saveCookie_def)
qed

lemma saveCookie_grows:
  "(\<exists>ks. map fst (this_cookie (saveCookie p res)) = map fst (this_cookie p) @ ks) \<and>
   (\<forall>k v. map_of (this_cookie p) k = Some v \<longrightarrow>
      (\<exists>v'. map_of (this_cookie (saveCookie p res)) k = Some v' \<and> (v' = v \<or> v' \<noteq> [])))"
proof (cases "set_cookie res")
  case None
  then show ?thesis by (simp add: saveCookie_def)
next
  case (Some h)
  then show ?thesis
    using foldl_absorb_grows [of p "split_comma_space (strip_expires h)"]
    by (simp add: saveCookie_def)
qed

lemma fetch_Failed:
  "t (sent s) (build_request (session s) path params) = Failed \<Longrightarrow>
   fetch t path params s =
     (Inl TransportFailure, s\<lparr>sent := sent s @ [build_request (session s) path params]\<rparr>)"
  by (simp add: fetch_def Let_def)

lemma fetch_not_ok:
  "t (sent s) (build_request (session s) path params) = Response res \<Longrightarrow> \<not> ok res \<Longrightarrow>
   fetch t path params s =
     (Inl (FetchError res), s\<lparr>sent := sent s @ [build_request (session s) path params]\<rparr>)"
  by (simp add: fetch_def Let_def)

lemma fetch_ok:
  "t (sent s) (build_request (session s) path params) = Response res \<Longrightarrow> ok res \<Longrightarrow>
   fetch t path params s =
     (Inr res, \<lparr>session = saveCookie (session s) res,
               sent = sent s @ [build_request (session s) path params]\<rparr>)"
  by (simp add: fetch_def Let_def)

text \<open>
  Claim C7, amended. An exchange through \<open>fetch\<close> whose response is ok resolves with the
  response, and the session it leaves is \<open>saveCookie\<close> of the session before: the absorbing
  step is applied. An exchange whose response is not ok rejects with the \<open>FetchError\<close>, and
  an exchange the transport fails rejects too; both leave the session as it was, so the
  cookies of a response that is not ok are not absorbed. In every case the jar only gains
  keys or overwrites: the keys it had stay where they were, new keys come after them, and
  a key it had holds its old value or a new one that is not empty.
\<close>

theorem fetch_absorbs_cookies:
  "(\<forall>res. t (sent s) (build_request (session s) path params) = Response res \<and> ok res \<longrightarrow>
      fetch t path params s =
        (Inr res, \<lparr>session = saveCookie (session s) res,
                  sent = sent s @ [build_request (session s) path params]\<rparr>)) \<and>
   (\<forall>res. t (sent s) (build_request (session s) path params) = Response res \<and> \<not> ok res \<longrightarrow>
      fetch t path params s =
        (Inl (FetchError res),
         s\<lparr>sent := sent s @ [build_request (session s) path params]\<rparr>)) \<and>
   (t (sent s) (build_request (session s) path params) = Failed \<longrightarrow>
      fetch t path params s =
        (Inl TransportFailure,
         s\<lparr>sent := sent s @ [build_request (session s) path params]\<rparr>)) \<and>
   (\<exists>ks. map fst (this_cookie (session (snd (fetch t path params s)))) =
      map fst (this_cookie (session s)) @ ks) \<and>
   (\<forall>k v. map_of (this_cookie (session s)) k = Some v \<longrightarrow>
      (\<exists>v'. map_of (this_cookie (session (snd (fetch t path params s)))) k = Some v' \<and>
         (v' = v \<or> v' \<noteq> [])))"
proof -
  have jar: "(\<exists>ks. map fst (this_cookie (session (snd (fetch t path params s)))) =
      map fst (this_cookie (session s)) @ ks) \<and>
   (\<forall>k v. map_of (this_cookie (session s)) k = Some v \<longrightarrow>
      (\<exists>v'. map_of (this_cookie (session (snd (fetch t path params s)))) k = Some v' \<and>
         (v' = v \<or> v' \<noteq> [])))"
  proof (cases "t (sent s) (build_request (session s) path params)")
    case Failed
    then show ?thesis by (simp add: fetch_Failed)
  next
    case (Response res)
    show ?thesis
    proof (cases "ok res")
      case True
      with Response show ?thesis
        using saveCookie_grows [of "session s" res] by (simp add: fetch_ok)
    next
      case False
      with Response show ?thesis by (simp add: fetch_not_ok)
    qed
  qed
  show ?thesis
    using jar by (auto simp: fetch_ok fetch_not_ok fetch_Failed)
qed


text \<open>In the example the jar holds \<open>NSSESSIONID=abc\<close>; \<open>granted\<close> sets \<open>sid\<close> and
  overwrites \<open>NSSESSIONID\<close>, \<open>denied\<close> would set \<open>sid\<close>.\<close>

lemma granted_cookies:
  "this_cookie (saveCookie school_session granted) = [(''NSSESSIONID'', ''def''), (''sid'', ''xyz'')]"
  by code_simp

lemma denied_cookies:
  "this_cookie (saveCookie school_session denied) = [(''NSSESSIONID'', ''abc''), (''sid'', ''xyz'')]"
  by code_simp

text \<open>Claim C7 as stated fails: a response that is not ok rejects the fetch and its
  cookie never reaches the jar, though absorbing it would have added \<open>sid\<close>.\<close>

theorem fetch_skips_failed_response_counterexample:
  "fetch (scripted [Response denied]) ''/webapi/announcements'' no_params school_state =
     (Inl (FetchError denied),
      school_state\<lparr>sent := [build_request school_session ''/webapi/announcements'' no_params]\<rparr>) \<and>
   this_cookie (session (snd (fetch (scripted [Response denied]) ''/webapi/announcements''
      no_params school_state))) = [(''NSSESSIONID'', ''abc'')] \<and>
   this_cookie (saveCookie school_session denied) = [(''NSSESSIONID'', ''abc''), (''sid'', ''xyz'')]"
proof -
  have r: "scripted [Response denied] (sent school_state)
      (build_request (session school_state) ''/webapi/announcements'' no_params) = Response denied"
    by (simp add: scripted_def school_state_def)
  have n: "\<not> ok denied" by (simp add: denied_def)
  have f: "fetch (scripted [Response denied]) ''/webapi/announcements'' no_params school_state =
     (Inl (FetchError denied),
      school_state\<lparr>sent := [build_request school_session ''/webapi/announcements'' no_params]\<rparr>)"
    using fetch_not_ok [of "scripted [Response denied]" school_state "''/webapi/announcements''" no_params denied, OF r n] by (simp add: school_state_def)
  show ?thesis
    unfolding f by (simp add: denied_cookies) (simp add: school_state_def school_session_def)
qed

theorem fetch_absorbs_cookies_witness:
  "fetch (scripted [Response granted]) ''/webapi/announcements'' no_params school_state =
     (Inr granted,
      \<lparr>session = saveCookie (session school_state) granted,
       sent = sent school_state @
         [build_request (session school_state) ''/webapi/announcements'' no_params]\<rparr>) \<and>
   fetch (scripted [Response denied]) ''/webapi/announcements'' no_params school_state =
     (Inl (FetchError denied),
      school_state\<lparr>sent := sent school_state @
         [build_request (session school_state) ''/webapi/announcements'' no_params]\<rparr>) \<and>
   fetch (scripted []) ''/webapi/announcements'' no_params school_state =
     (Inl TransportFailure,
      school_state\<lparr>sent := sent school_state @
         [build_request (session school_state) ''/webapi/announcements'' no_params]\<rparr>) \<and>
   (\<exists>ks. map fst (this_cookie (session (snd (fetch (scripted [Response granted])
        ''/webapi/announcements'' no_params school_state)))) =
      map fst (this_cookie (session school_state)) @ ks) \<and>
   (\<exists>v'. map_of (this_cookie (session (snd (fetch (scripted [Response granted])
        ''/webapi/announcements'' no_params school_state)))) ''NSSESSIONID'' = Some v' \<and>
      (v' = ''abc'' \<or> v' \<noteq> []))"
proof (intro conjI)
  have g: "scripted [Response granted] (sent school_state)
      (build_request (session school_state) ''/webapi/announcements'' no_params) =
      Response granted \<and> ok granted"
    by (simp add: scripted_def school_state_def granted_def)
  have d: "scripted [Response denied] (sent school_state)
      (build_request (session school_state) ''/webapi/announcements'' no_params) =
      Response denied \<and> \<not> ok denied"
    by (simp add: scripted_def school_state_def denied_def)
  have n: "scripted [] (sent school_state)
      (build_request (session school_state) ''/webapi/announcements'' no_params) = Failed"
    by (simp add: scripted_def)
  have old: "map_of (this_cookie (session school_state)) ''NSSESSIONID'' = Some ''abc''"
    by (simp add: school_state_def school_session_def)
  show "fetch (scripted [Response granted]) ''/webapi/announcements'' no_params school_state =
     (Inr granted,
      \<lparr>session = saveCookie (session school_state) granted,
       sent = sent school_state @
         [build_request (session school_state) ''/webapi/announcements'' no_params]\<rparr>)"
    by (rule fetch_absorbs_cookies [of "scripted [Response granted]" school_state "''/webapi/announcements''" no_params, THEN conjunct1, rule_format, OF g])
  show "fetch (scripted [Response denied]) ''/webapi/announcements'' no_params school_state =
     (Inl (FetchError denied),
      school_state\<lparr>sent := sent school_state @
         [build_request (session school_state) ''/webapi/announcements'' no_params]\<rparr>)"
    by (rule fetch_absorbs_cookies [of "scripted [Response denied]" school_state "''/webapi/announcements''" no_params, THEN conjunct2, THEN conjunct1, rule_format, OF d])
  show "fetch (scripted []) ''/webapi/announcements'' no_params school_state =
     (Inl TransportFailure,
      school_state\<lparr>sent := sent school_state @
         [build_request (session school_state) ''/webapi/announcements'' no_params]\<rparr>)"
    by (rule fetch_absorbs_cookies [of "scripted []" school_state "''/webapi/announcements''" no_params, 
        THEN conjunct2, THEN conjunct2, THEN conjunct1, rule_format, OF n])
  show "\<exists>ks. map fst (this_cookie (session (snd (fetch (scripted [Response granted])
        ''/webapi/announcements'' no_params school_state)))) =
      map fst (this_cookie (session school_state)) @ ks"
    by (rule fetch_absorbs_cookies [of "scripted [Response granted]" school_state "''/webapi/announcements''" no_params, 
        THEN conjunct2, THEN conjunct2, THEN conjunct2, THEN conjunct1])
  show "\<exists>v'. map_of (this_cookie (session (snd (fetch (scripted [Response granted])
        ''/webapi/announcements'' no_params school_state)))) ''NSSESSIONID'' = Some v' \<and>
      (v' = ''abc'' \<or> v' \<noteq> [])"
    by (rule fetch_absorbs_cookies [of "scripted [Response granted]" school_state "''/webapi/announcements''" no_params, 
        THEN conjunct2, THEN conjunct2, THEN conjunct2, THEN conjunct2, rule_format, OF old])
qed

subsection \<open>Logging out\<close>

text \<open>
  Claim C3, amended. When the logout request gets a response that is ok, \<open>logOut\<close> resolves
  and the session it leaves is the session before with the token, the version and the
  expiry set to \<open>null\<close> and with the jar that absorbing the response gives: every other
  field, the user id, the class id, the catalogue of subjects and the school year among
  them, is as it was, and the jar is never cleared (its keys stay, and it is unchanged
  when the response sets no cookie). When the response is not ok, or the transport
  fails, \<open>logOut\<close> rejects and leaves the whole session as it was: the token, the version
  and the expiry are not cleared.
\<close>

theorem logOut_effect:
  "(\<forall>res.
      net e (sent s)
        (build_request (session s) ''/asp/logout.asp''
           (post (''at='' @ str (this_at (session s)) @ ''&ver='' @ str (this_ver (session s)))))
        = Response res \<and> ok res \<longrightarrow>
      logOut e s =
        (Inr (),
         \<lparr>session = (session s)
            \<lparr>this_at := Null, this_ver := Null,
             this_cookie := this_cookie (saveCookie (session s) res),
             this_sessionTime := Null\<rparr>,
          sent = sent s @
            [build_request (session s) ''/asp/logout.asp''
               (post (''at='' @ str (this_at (session s)) @
                      ''&ver='' @ str (this_ver (session s))))]\<rparr>) \<and>
      (set_cookie res = None \<longrightarrow>
         this_cookie (saveCookie (session s) res) = this_cookie (session s)) \<and>
      (\<exists>ks. map fst (this_cookie (saveCookie (session s) res)) =
         map fst (this_cookie (session s)) @ ks)) \<and>
   (\<forall>res.
      net e (sent s)
        (build_request (session s) ''/asp/logout.asp''
           (post (''at='' @ str (this_at (session s)) @ ''&ver='' @ str (this_ver (session s)))))
        = Response res \<and> \<not> ok res \<longrightarrow>
      fst (logOut e s) = Inl (FetchError res) \<and> session (snd (logOut e s)) = session s) \<and>
   (net e (sent s)
        (build_request (session s) ''/asp/logout.asp''
           (post (''at='' @ str (this_at (session s)) @ ''&ver='' @ str (this_ver (session s)))))
        = Failed \<longrightarrow>
      fst (logOut e s) = Inl TransportFailure \<and> session (snd (logOut e s)) = session s)"
proof (intro conjI allI impI)
  fix res
  assume a: "net e (sent s)
        (build_request (session s) ''/asp/logout.asp''
           (post (''at='' @ str (this_at (session s)) @ ''&ver='' @ str (this_ver (session s)))))
        = Response res \<and> ok res"
  then have f: "fetch (net e) ''/asp/logout.asp''
      (post (''at='' @ str (this_at (session s)) @ ''&ver='' @ str (this_ver (session s)))) s =
      (Inr res, \<lparr>session = saveCookie (session s) res,
         sent = sent s @ [build_request (session s) ''/asp/logout.asp''
           (post (''at='' @ str (this_at (session s)) @
                  ''&ver='' @ str (this_ver (session s))))]\<rparr>)"
    by (simp add: fetch_ok)
  have "saveCookie (session s) res\<lparr>this_at := Null, this_ver := Null, this_sessionTime := Null\<rparr> =
      (session s)\<lparr>this_at := Null, this_ver := Null,
             this_cookie := this_cookie (saveCookie (session s) res),
             this_sessionTime := Null\<rparr>"
    by (subst saveCookie_frame) simp
  with f show "logOut e s =
        (Inr (),
         \<lparr>session = (session s)
            \<lparr>this_at := Null, this_ver := Null,
             this_cookie := this_cookie (saveCookie (session s) res),
             this_sessionTime := Null\<rparr>,
          sent = sent s @
            [build_request (session s) ''/asp/logout.asp''
               (post (''at='' @ str (this_at (session s)) @
                      ''&ver='' @ str (this_ver (session s))))]\<rparr>)"
    by (simp add: logOut_def and_then_def)
  show "\<exists>ks. map fst (this_cookie (saveCookie (session s) res)) =
         map fst (this_cookie (session s)) @ ks"
    by (rule saveCookie_grows [THEN conjunct1])
  assume "set_cookie res = None"
  then show "this_cookie (saveCookie (session s) res) = this_cookie (session s)"
    by (simp add: saveCookie_def)
next
  fix res
  assume a: "net e (sent s)
        (build_request (session s) ''/asp/logout.asp''
           (post (''at='' @ str (this_at (session s)) @ ''&ver='' @ str (this_ver (session s)))))
        = Response res \<and> \<not> ok res"
  then have f: "fetch (net e) ''/asp/logout.asp''
      (post (''at='' @ str (this_at (session s)) @ ''&ver='' @ str (this_ver (session s)))) s =
      (Inl (FetchError res), s\<lparr>sent := sent s @ [build_request (session s) ''/asp/logout.asp''
           (post (''at='' @ str (this_at (session s)) @
                  ''&ver='' @ str (this_ver (session s))))]\<rparr>)"
    by (simp add: fetch_not_ok)
  from f show "fst (logOut e s) = Inl (FetchError res)"
    by (simp add: logOut_def and_then_def)
  from f show "session (snd (logOut e s)) = session s"
    by (simp add: logOut_def and_then_def)
next
  assume a: "net e (sent s)
        (build_request (session s) ''/asp/logout.asp''
           (post (''at='' @ str (this_at (session s)) @ ''&ver='' @ str (this_ver (session s)))))
        = Failed"
  then have f: "fetch (net e) ''/asp/logout.asp''
      (post (''at='' @ str (this_at (session s)) @ ''&ver='' @ str (this_ver (session s)))) s =
      (Inl TransportFailure, s\<lparr>sent := sent s @ [build_request (session s) ''/asp/logout.asp''
           (post (''at='' @ str (this_at (session s)) @
                  ''&ver='' @ str (this_ver (session s))))]\<rparr>)"
    by (simp add: fetch_Failed)
  from f show "fst (logOut e s) = Inl TransportFailure"
    by (simp add: logOut_def and_then_def)
  from f show "session (snd (logOut e s)) = session s"
    by (simp add: logOut_def and_then_def)
qed


lemma example_reply:
  "net (example_env replies) (sent school_state) req =
     (case replies of [] \<Rightarrow> Failed | r # rs \<Rightarrow> r)"
  by (simp add: example_env_def scripted_def school_state_def split: list.splits)

text \<open>Claim C3 as stated fails twice: after a logout whose HTTP call failed the token, the
  version and the expiry are still there; and a logout that succeeds changes the jar
  when the response sets cookies.\<close>

theorem logOut_keeps_token_counterexample:
  "fst (logOut (example_env []) school_state) = Inl TransportFailure \<and>
   this_at (session (snd (logOut (example_env []) school_state))) = Val ''AT-7731'' \<and>
   this_ver (session (snd (logOut (example_env []) school_state))) = Val ''VER-52'' \<and>
   this_sessionTime (session (snd (logOut (example_env []) school_state))) =
     Val (Num 1693875600000) \<and>
   fst (logOut (example_env [Response denied]) school_state) = Inl (FetchError denied) \<and>
   this_at (session (snd (logOut (example_env [Response denied]) school_state))) =
     Val ''AT-7731'' \<and>
   fst (logOut (example_env [Response granted]) school_state) = Inr () \<and>
   this_cookie (session school_state) = [(''NSSESSIONID'', ''abc'')] \<and>
   this_cookie (session (snd (logOut (example_env [Response granted]) school_state))) =
     [(''NSSESSIONID'', ''def''), (''sid'', ''xyz'')]"
proof -
  have "net (example_env []) (sent school_state) (build_request (session school_state) ''/asp/logout.asp''
           (post (''at='' @ str (this_at (session school_state)) @
                  ''&ver='' @ str (this_ver (session school_state))))) = Failed"
    by (simp add: example_reply)
  then have failed: "logOut (example_env []) school_state =
      (Inl TransportFailure, school_state\<lparr>sent := sent school_state @ [(build_request (session school_state) ''/asp/logout.asp''
           (post (''at='' @ str (this_at (session school_state)) @
                  ''&ver='' @ str (this_ver (session school_state)))))]\<rparr>)"
    by (simp add: logOut_def and_then_def fetch_Failed)
  have "net (example_env [Response denied]) (sent school_state) (build_request (session school_state) ''/asp/logout.asp''
           (post (''at='' @ str (this_at (session school_state)) @
                  ''&ver='' @ str (this_ver (session school_state))))) = Response denied"
    by (simp add: example_reply)
  moreover have "\<not> ok denied" by (simp add: denied_def)
  ultimately have refused: "logOut (example_env [Response denied]) school_state =
      (Inl (FetchError denied), school_state\<lparr>sent := sent school_state @ [(build_request (session school_state) ''/asp/logout.asp''
           (post (''at='' @ str (this_at (session school_state)) @
                  ''&ver='' @ str (this_ver (session school_state)))))]\<rparr>)"
    by (simp add: logOut_def and_then_def fetch_not_ok)
  have "net (example_env [Response granted]) (sent school_state) (build_request (session school_state) ''/asp/logout.asp''
           (post (''at='' @ str (this_at (session school_state)) @
                  ''&ver='' @ str (this_ver (session school_state))))) = Response granted"
    by (simp add: example_reply)
  moreover have "ok granted" by (simp add: granted_def)
  ultimately have cleared: "logOut (example_env [Response granted]) school_state =
      (Inr (),
       \<lparr>session = (saveCookie (session school_state) granted)
          \<lparr>this_at := Null, this_ver := Null, this_sessionTime := Null\<rparr>,
        sent = sent school_state @ [(build_request (session school_state) ''/asp/logout.asp''
           (post (''at='' @ str (this_at (session school_state)) @
                  ''&ver='' @ str (this_ver (session school_state)))))]\<rparr>)"
    by (simp add: logOut_def and_then_def fetch_ok)
  have s: "session school_state = school_session" by (simp add: school_state_def)
  show ?thesis
    unfolding failed refused cleared
    by (simp add: s granted_cookies) (simp add: school_session_def)
qed

theorem logOut_effect_witness:
  "logOut (example_env [Response granted]) school_state =
     (Inr (),
      \<lparr>session = (session school_state)
         \<lparr>this_at := Null, this_ver := Null,
          this_cookie := this_cookie (saveCookie (session school_state) granted),
          this_sessionTime := Null\<rparr>,
       sent = sent school_state @ [(build_request (session school_state) ''/asp/logout.asp''
           (post (''at='' @ str (this_at (session school_state)) @
                  ''&ver='' @ str (this_ver (session school_state)))))]\<rparr>) \<and>
   (\<exists>ks. map fst (this_cookie (saveCookie (session school_state) granted)) =
      map fst (this_cookie (session school_state)) @ ks) \<and>
   this_cookie (saveCookie (session school_state) ok_response) =
     this_cookie (session school_state) \<and>
   fst (logOut (example_env [Response denied]) school_state) = Inl (FetchError denied) \<and>
   session (snd (logOut (example_env [Response denied]) school_state)) = session school_state \<and>
   fst (logOut (example_env []) school_state) = Inl TransportFailure \<and>
   session (snd (logOut (example_env []) school_state)) = session school_state"
proof -
  have g: "net (example_env [Response granted]) (sent school_state) (build_request (session school_state) ''/asp/logout.asp''
           (post (''at='' @ str (this_at (session school_state)) @
                  ''&ver='' @ str (this_ver (session school_state))))) =
      Response granted \<and> ok granted"
    by (simp add: example_reply granted_def)
  have k: "net (example_env [Response ok_response]) (sent school_state) (build_request (session school_state) ''/asp/logout.asp''
           (post (''at='' @ str (this_at (session school_state)) @
                  ''&ver='' @ str (this_ver (session school_state))))) =
      Response ok_response \<and> ok ok_response"
    by (simp add: example_reply ok_response_def)
  have d: "net (example_env [Response denied]) (sent school_state) (build_request (session school_state) ''/asp/logout.asp''
           (post (''at='' @ str (this_at (session school_state)) @
                  ''&ver='' @ str (this_ver (session school_state))))) =
      Response denied \<and> \<not> ok denied"
    by (simp add: example_reply denied_def)
  have n: "net (example_env []) (sent school_state) (build_request (session school_state) ''/asp/logout.asp''
           (post (''at='' @ str (this_at (session school_state)) @
                  ''&ver='' @ str (this_ver (session school_state))))) = Failed"
    by (simp add: example_reply)
  have none: "set_cookie ok_response = None" by (simp add: ok_response_def)
  note a = logOut_effect [of "example_env [Response granted]" school_state,
      THEN conjunct1, rule_format, OF g]
  note b = logOut_effect [of "example_env [Response ok_response]" school_state,
      THEN conjunct1, rule_format, OF k]
  note c = logOut_effect [of "example_env [Response denied]" school_state,
      THEN conjunct2, THEN conjunct1, rule_format, OF d]
  note f = logOut_effect [of "example_env []" school_state,
      THEN conjunct2, THEN conjunct2, rule_format, OF n]
  from a b [THEN conjunct2, THEN conjunct1, rule_format, OF none] c f
  show ?thesis by blast
qed

subsection \<open>The round trip of the jar\<close>

text \<open>
  Claim C6 fails on the code. The server sends the two cookies \<open>a=1\<close>, whose last
  attribute is \<open>expires\<close>, and \<open>b=2\<close> with a path. The pattern that strips \<open>expires\<close>
  runs to the next semicolon, which is in the second cookie, and takes \<open>b=2\<close> with it: the
  jar holds \<open>a\<close> alone and renders \<open>a=1\<close>, where the claim has \<open>a=1; b=2\<close>. The pattern
  is also tied to the lower case: an \<open>Expires\<close> attribute stays, the split at the comma of
  its date cuts the cookie in two, and the second half is stored and rendered as a cookie.
\<close>

theorem cookie_round_trip_failing_input:
  "strip_expires ''a=1; expires=Wed, 21 Oct 2015 07:28:00 GMT, b=2; path=/'' = ''a=1;  path=/'' \<and>
   this_cookie (saveCookie new_session two_cookies) = [(''a'', ''1'')] \<and>
   cookie (saveCookie new_session two_cookies) = ''a=1'' \<and>
   this_cookie (saveCookie new_session capital_expires) =
     [(''sid'', ''abc''), (''21 Oct 2015 07:28:00 GMT; Path'', ''/'')] \<and>
   cookie (saveCookie new_session capital_expires) =
     ''sid=abc; 21 Oct 2015 07:28:00 GMT; Path=/''"
  by code_simp

subsection \<open>Needing authentication\<close>

lemma saveCookie_fields:
  "this_at (saveCookie p res) = this_at p"
  "this_ver (saveCookie p res) = this_ver p"
  "this_sessionTime (saveCookie p res) = this_sessionTime p"
  "this_userId (saveCookie p res) = this_userId p"
  "this_classId (saveCookie p res) = this_classId p"
  "subjects (saveCookie p res) = subjects p"
  "studyYear (saveCookie p res) = studyYear p"
  "this_password (saveCookie p res) = this_password p"
  by (subst saveCookie_frame, simp)+

lemma and_then_frame:
  assumes "T (snd r) = c" and "\<And>x s1. T (snd (f x s1)) = T s1"
  shows "T (snd (and_then r f)) = c"
  using assms by (cases r) (auto simp: and_then_def split: sum.splits)

lemma and_then_InrD:
  "and_then r f = (Inr u, s') \<Longrightarrow> \<exists>x s1. r = (Inr x, s1) \<and> f x s1 = (Inr u, s')"
  by (cases r) (auto simp: and_then_def split: sum.splits)

lemma fetch_keeps_sessionTime:
  "this_sessionTime (session (snd (fetch t path params s))) = this_sessionTime (session s)"
  by (simp add: fetch_def Let_def saveCookie_fields split: exchange.splits)

lemma store_identity_keeps_sessionTime:
  "this_sessionTime (session (snd (store_identity e fs s))) = this_sessionTime (session s)"
  by (simp add: store_identity_def Let_def split: option.splits)

lemma appContext_keeps_sessionTime:
  "this_sessionTime (session (snd (appContext e s))) = this_sessionTime (session s)"
  unfolding appContext_def
  apply (rule and_then_frame)
   apply (rule fetch_keeps_sessionTime)
  apply (rule and_then_frame)
   apply (simp add: res_text_def)
  apply (simp split: sum.splits add: Let_def)
  apply (intro allI impI)
  apply (rule and_then_frame)
   apply (simp add: fetch_keeps_sessionTime store_context_def)
  apply (rule and_then_frame)
   apply (simp add: res_json_def split: option.splits)
  apply (rule and_then_frame)
   apply (simp add: as_object_def split: json_value.splits)
  apply (simp add: store_identity_keeps_sessionTime split: option.splits)
  done

lemma logIn_token_sessionTime:
  "this_sessionTime (session (snd (logIn_token e now reply s))) =
     Val (js_add (Num now) (ToNumber (timeOut reply)))"
  by (simp add: logIn_token_def Let_def appContext_keeps_sessionTime)

lemma and_then_extends:
  assumes "\<exists>rest. sent (snd r) = xs @ rest"
    and "\<And>x s1. \<exists>rest. sent (snd (f x s1)) = sent s1 @ rest"
  shows "\<exists>rest. sent (snd (and_then r f)) = xs @ rest"
proof (cases r)
  case (Pair a s1)
  show ?thesis
  proof (cases a)
    case (Inl err)
    with Pair assms(1) show ?thesis by (simp add: and_then_def)
  next
    case (Inr x)
    from assms(1) Pair obtain r1 where "sent s1 = xs @ r1" by auto
    moreover from assms(2) obtain r2 where "sent (snd (f x s1)) = sent s1 @ r2" by blast
    ultimately have "sent (snd (f x s1)) = xs @ (r1 @ r2)" by simp
    with Pair Inr show ?thesis by (auto simp: and_then_def)
  qed
qed

lemma fetch_extends: "\<exists>rest. sent (snd (fetch t path params s)) = sent s @ rest"
  by (simp add: sent_fetch)

lemma store_identity_sent: "sent (snd (store_identity e fs s)) = sent s"
  by (simp add: store_identity_def Let_def split: option.splits)

lemma appContext_extends: "\<exists>rest. sent (snd (appContext e s)) = sent s @ rest"
  unfolding appContext_def
  apply (rule and_then_extends)
   apply (rule fetch_extends)
  apply (rule and_then_extends)
   apply (simp add: res_text_def)
  apply (simp split: sum.splits add: Let_def)
  apply (intro allI impI)
  apply (rule and_then_extends [where xs = "sent s" for s, simplified])
   apply (simp add: sent_fetch)
  apply (rule and_then_extends)
   apply (simp add: res_json_def split: option.splits)
  apply (rule and_then_extends)
   apply (simp add: as_object_def split: json_value.splits)
  apply (simp add: store_identity_sent split: option.splits)
  done

lemma logIn_token_extends: "\<exists>rest. sent (snd (logIn_token e now reply s)) = sent s @ rest"
  using appContext_extends
    [of e "s\<lparr>session := (session s)
                \<lparr>this_at := at reply,
                 this_sessionTime := Val (js_add (Num now) (ToNumber (timeOut reply)))\<rparr>\<rparr>"]
  by (simp add: logIn_token_def Let_def)

lemma fetch_InrD:
  "fetch t path params s = (Inr res, s1) \<Longrightarrow>
   t (sent s) (build_request (session s) path params) = Response res \<and> ok res \<and>
   s1 = \<lparr>session = saveCookie (session s) res,
         sent = sent s @ [build_request (session s) path params]\<rparr>"
  by (auto simp: fetch_def Let_def split: exchange.splits if_splits)

lemma res_json_InrD: "res_json res s = (Inr j, s1) \<Longrightarrow> json res = Some j \<and> s1 = s"
  by (auto simp: res_json_def split: option.splits)

lemma as_object_InrD: "as_object j s = (Inr obj, s1) \<Longrightarrow> j = JsonObject obj \<and> s1 = s"
  by (auto simp: as_object_def split: json_value.splits)

lemma json_object_InrD:
  assumes "and_then (res_json res s) (\<lambda>j s. and_then (as_object j s) f) = (Inr u, s')"
  shows "\<exists>obj. json res = Some (JsonObject obj) \<and> f obj s = (Inr u, s')"
proof -
  from and_then_InrD [OF assms] obtain j s1 where
    j: "res_json res s = (Inr j, s1)" and r: "and_then (as_object j s1) f = (Inr u, s')"
    by blast
  from and_then_InrD [OF r] obtain obj s2 where
    ob: "as_object j s1 = (Inr obj, s2)" and f: "f obj s2 = (Inr u, s')"
    by blast
  from res_json_InrD [OF j] as_object_InrD [OF ob] f show ?thesis by auto
qed

lemma logIn_seed_resolves:
  assumes "logIn_seed e now seed s = (Inr u, s')"
  shows "\<exists>res (reply :: json_object).
     net e (sent s)
       (build_request ((session s)\<lparr>this_ver := ver seed\<rparr>) ''/webapi/login''
          (post (login_body e ((session s)\<lparr>this_ver := ver seed\<rparr>) seed))) = Response res \<and>
     ok res \<and> json res = Some (JsonObject reply) \<and>
     logIn_token e now reply
       \<lparr>session = saveCookie ((session s)\<lparr>this_ver := ver seed\<rparr>) res,
        sent = sent s @
          [build_request ((session s)\<lparr>this_ver := ver seed\<rparr>) ''/webapi/login''
             (post (login_body e ((session s)\<lparr>this_ver := ver seed\<rparr>) seed))]\<rparr> = (Inr u, s')"
proof -
  from and_then_InrD [OF assms [unfolded logIn_seed_def Let_def]] obtain res s1 where
    f: "fetch (net e) ''/webapi/login''
          (post (login_body e (session (s\<lparr>session := (session s)\<lparr>this_ver := ver seed\<rparr>\<rparr>)) seed))
          (s\<lparr>session := (session s)\<lparr>this_ver := ver seed\<rparr>\<rparr>) = (Inr res, s1)"
    and r: "and_then (res_json res s1)
          (\<lambda>j s. and_then (as_object j s) (logIn_token e now)) = (Inr u, s')"
    by blast
  from json_object_InrD [OF r] obtain reply where
    "json res = Some (JsonObject reply)" "logIn_token e now reply s1 = (Inr u, s')"
    by blast
  with fetch_InrD [OF f] show ?thesis by auto
qed

lemma logIn_resolves:
  assumes "logIn e now s = (Inr u, s')"
  shows "\<exists>r1 r2 r3 res2 res3 (seed :: json_object) (reply :: json_object) s3.
     net e (sent s @ [r1]) r2 = Response res2 \<and> json res2 = Some (JsonObject seed) \<and>
     net e (sent s @ [r1, r2]) r3 = Response res3 \<and> json res3 = Some (JsonObject reply) \<and>
     sent s3 = sent s @ [r1, r2, r3] \<and>
     this_userId (session s3) = this_userId (session s) \<and>
     this_ver (session s3) = ver seed \<and>
     logIn_token e now reply s3 = (Inr u, s')"
proof -
  from and_then_InrD [OF assms [unfolded logIn_def]] obtain res1 s1 where
    f1: "fetch (net e) [] no_params s = (Inr res1, s1)"
    and r1: "and_then
       (fetch (net e) ''/webapi/auth/getdata''
          \<lparr>p_method = Val ''post'', p_headers = [], p_body = Undefined\<rparr>
          (s1\<lparr>session := (session s1)\<lparr>this_secure := startsWith (url res1) ''https''\<rparr>\<rparr>))
       (\<lambda>res s. and_then (res_json res s)
       (\<lambda>j s. and_then (as_object j s) (logIn_seed e now))) = (Inr u, s')"
    by (auto simp: Let_def)
  note a1 = fetch_InrD [OF f1]
  from and_then_InrD [OF r1] obtain res2 s2 where
    f2: "fetch (net e) ''/webapi/auth/getdata''
          \<lparr>p_method = Val ''post'', p_headers = [], p_body = Undefined\<rparr>
          (s1\<lparr>session := (session s1)\<lparr>this_secure := startsWith (url res1) ''https''\<rparr>\<rparr>) =
        (Inr res2, s2)"
    and r2: "and_then (res_json res2 s2)
       (\<lambda>j s. and_then (as_object j s) (logIn_seed e now)) = (Inr u, s')"
    by blast
  note a2 = fetch_InrD [OF f2]
  from json_object_InrD [OF r2] obtain seed where
    j2: "json res2 = Some (JsonObject seed)" and sd: "logIn_seed e now seed s2 = (Inr u, s')"
    by blast
  from logIn_seed_resolves [OF sd] obtain res3 reply where
    n3: "net e (sent s2)
       (build_request ((session s2)\<lparr>this_ver := ver seed\<rparr>) ''/webapi/login''
          (post (login_body e ((session s2)\<lparr>this_ver := ver seed\<rparr>) seed))) = Response res3"
    and j3: "json res3 = Some (JsonObject reply)"
    and tk: "logIn_token e now reply
       \<lparr>session = saveCookie ((session s2)\<lparr>this_ver := ver seed\<rparr>) res3,
        sent = sent s2 @
          [build_request ((session s2)\<lparr>this_ver := ver seed\<rparr>) ''/webapi/login''
             (post (login_body e ((session s2)\<lparr>this_ver := ver seed\<rparr>) seed))]\<rparr> = (Inr u, s')"
    by blast
  let ?r1 = "build_request (session s) [] no_params"
  let ?r2 = "build_request
      (session (s1\<lparr>session := (session s1)\<lparr>this_secure := startsWith (url res1) ''https''\<rparr>\<rparr>))
      ''/webapi/auth/getdata'' \<lparr>p_method = Val ''post'', p_headers = [], p_body = Undefined\<rparr>"
  let ?r3 = "build_request ((session s2)\<lparr>this_ver := ver seed\<rparr>) ''/webapi/login''
          (post (login_body e ((session s2)\<lparr>this_ver := ver seed\<rparr>) seed))"
  let ?s3 = "\<lparr>session = saveCookie ((session s2)\<lparr>this_ver := ver seed\<rparr>) res3,
        sent = sent s2 @ [?r3]\<rparr>"
  from a1 have sent1: "sent s1 = sent s @ [?r1]" by simp
  from a2 sent1 have sent2: "sent s2 = sent s @ [?r1, ?r2]" by simp
  from a1 a2 have uid: "this_userId (session s2) = this_userId (session s)"
    by (simp add: saveCookie_fields)
  have "net e (sent s @ [?r1]) ?r2 = Response res2"
    using a2 sent1 by simp
  moreover note j2
  moreover have "net e (sent s @ [?r1, ?r2]) ?r3 = Response res3"
    using n3 sent2 by simp
  moreover note j3
  moreover have "sent ?s3 = sent s @ [?r1, ?r2, ?r3]" using sent2 by simp
  moreover have "this_userId (session ?s3) = this_userId (session s)"
    using uid by (simp add: saveCookie_fields)
  moreover have "this_ver (session ?s3) = ver seed" by (simp add: saveCookie_fields)
  moreover note tk
  ultimately show ?thesis by blast
qed

lemma store_identity_keeps_token:
  "this_at (session (snd (store_identity e fs s))) = this_at (session s)"
  "this_ver (session (snd (store_identity e fs s))) = this_ver (session s)"
  by (simp_all add: store_identity_def Let_def split: option.splits)

lemma grades_steps_keep:
  assumes "\<And>fs s. T (snd (store_identity e fs s)) = T s"
    and "\<And>t path params s. T (snd (fetch t path params s)) = T s"
  shows "T (snd (and_then (fetch t path params s)
       (\<lambda>res s. and_then (res_json res s)
       (\<lambda>j s. and_then (as_object j s)
       (\<lambda>data s.
          case filterSources data of
            None \<Rightarrow> (Inl TypeError, s)
          | Some fs \<Rightarrow> store_identity e fs s))))) = T s"
  apply (rule and_then_frame)
   apply (rule assms(2))
  apply (rule and_then_frame)
   apply (simp add: res_json_def split: option.splits)
  apply (rule and_then_frame)
   apply (simp add: as_object_def split: json_value.splits)
  apply (simp add: assms(1) split: option.splits)
  done

lemma fetch_keeps_token:
  "this_at (session (snd (fetch t path params s))) = this_at (session s)"
  "this_ver (session (snd (fetch t path params s))) = this_ver (session s)"
  by (simp_all add: fetch_def Let_def saveCookie_fields split: exchange.splits)

lemma appContext_resolves:
  assumes "appContext e s = (Inr u, s')"
  shows "\<exists>r4 res4 ctx.
     net e (sent s) r4 = Response res4 \<and> parserAppContext e (body_text res4) = Inr ctx \<and>
     this_at (session s') = ctx_at ctx \<and> this_ver (session s') = ctx_ver ctx"
proof -
  from and_then_InrD [OF assms [unfolded appContext_def]] obtain res4 s1 where
    f: "fetch (net e)
          (''/asp/MySettings/MySettings.asp?at='' @ str (this_at (session s)))
          (post (''at='' @ str (this_at (session s)) @ ''&'' @
                 ''ver='' @ str (this_ver (session s)) @ ''&''))
          s = (Inr res4, s1)"
    and r: "and_then (res_text res4 s1)
       (\<lambda>txt s.
          case parserAppContext e txt of
            Inl err \<Rightarrow> (Inl err, s)
          | Inr ctx \<Rightarrow>
       (let s1 = s\<lparr>session := store_context ctx (session s)\<rparr> in
        and_then (fetch (net e) ''/webapi/reports/studentgrades'' (with_at (session s1)) s1)
       (\<lambda>res s. and_then (res_json res s)
       (\<lambda>j s. and_then (as_object j s)
       (\<lambda>data s.
          case filterSources data of
            None \<Rightarrow> (Inl TypeError, s)
          | Some fs \<Rightarrow> store_identity e fs s))))) = (Inr u, s')"
    by blast
  from r obtain ctx where
    p: "parserAppContext e (body_text res4) = Inr ctx"
    and g: "and_then
        (fetch (net e) ''/webapi/reports/studentgrades''
           (with_at (store_context ctx (session s1)))
           (s1\<lparr>session := store_context ctx (session s1)\<rparr>))
       (\<lambda>res s. and_then (res_json res s)
       (\<lambda>j s. and_then (as_object j s)
       (\<lambda>data s.
          case filterSources data of
            None \<Rightarrow> (Inl TypeError, s)
          | Some fs \<Rightarrow> store_identity e fs s))) = (Inr u, s')"
    by (auto simp: and_then_def res_text_def Let_def split: sum.splits)
  have "this_at (session (snd (Inr u :: error + unit, s'))) =
      this_at (session (s1\<lparr>session := store_context ctx (session s1)\<rparr>))"
    unfolding g [symmetric]
    by (rule grades_steps_keep [where T = "\<lambda>s. this_at (session s)"])
      (simp_all add: store_identity_keeps_token fetch_keeps_token)
  then have a: "this_at (session s') = ctx_at ctx" by (simp add: store_context_def)
  have "this_ver (session (snd (Inr u :: error + unit, s'))) =
      this_ver (session (s1\<lparr>session := store_context ctx (session s1)\<rparr>))"
    unfolding g [symmetric]
    by (rule grades_steps_keep [where T = "\<lambda>s. this_ver (session s)"])
      (simp_all add: store_identity_keeps_token fetch_keeps_token)
  then have v: "this_ver (session s') = ctx_ver ctx" by (simp add: store_context_def)
  from fetch_InrD [OF f] p a v show ?thesis by blast
qed

lemma logIn_token_resolves:
  assumes "logIn_token e now reply s = (Inr u, s')"
  shows "\<exists>rest.
     sent s' = sent s @ rest \<and>
     this_sessionTime (session s') = Val (js_add (Num now) (ToNumber (timeOut reply))) \<and>
     (if falsy_number (this_userId (session s))
      then \<exists>r4 res4 ctx.
             net e (sent s) r4 = Response res4 \<and>
             parserAppContext e (body_text res4) = Inr ctx \<and>
             this_at (session s') = ctx_at ctx \<and> this_ver (session s') = ctx_ver ctx
      else this_at (session s') = at reply \<and> this_ver (session s') = this_ver (session s))"
proof -
  from logIn_token_extends [of e now reply s] assms
  obtain rest where "sent s' = sent s @ rest" by auto
  moreover from logIn_token_sessionTime [of e now reply s] assms
  have "this_sessionTime (session s') = Val (js_add (Num now) (ToNumber (timeOut reply)))"
    by simp
  moreover have "if falsy_number (this_userId (session s))
      then \<exists>r4 res4 ctx.
             net e (sent s) r4 = Response res4 \<and>
             parserAppContext e (body_text res4) = Inr ctx \<and>
             this_at (session s') = ctx_at ctx \<and> this_ver (session s') = ctx_ver ctx
      else this_at (session s') = at reply \<and> this_ver (session s') = this_ver (session s)"
  proof (cases "falsy_number (this_userId (session s))")
    case True
    with assms have "appContext e
        (s\<lparr>session := (session s)
            \<lparr>this_at := at reply,
             this_sessionTime := Val (js_add (Num now) (ToNumber (timeOut reply)))\<rparr>\<rparr>) =
        (Inr u, s')"
      by (simp add: logIn_token_def Let_def)
    from appContext_resolves [OF this] True show ?thesis by simp
  next
    case False
    with assms show ?thesis by (auto simp: logIn_token_def Let_def)
  qed
  ultimately show ?thesis by blast
qed

lemma needAuth_cases:
  "needAuth p t \<longleftrightarrow>
      falsy_string (this_at p) \<or> falsy_string (this_ver p) \<or>
      (case this_sessionTime p of
         Val (Num x) \<Rightarrow> x - t < 1000
       | Val NaN \<Rightarrow> False
       | Null \<Rightarrow> - t < 1000
       | Undefined \<Rightarrow> False)"
  by (simp add: needAuth_def split: nullable.splits jsnum.splits)

lemma needAuth_after:
  assumes "this_sessionTime p = Val (js_add (Num now) (ToNumber tmo))"
  shows "needAuth p t \<longleftrightarrow>
      falsy_string (this_at p) \<or> falsy_string (this_ver p) \<or>
      (case tmo of
         Val (Num d) \<Rightarrow> now + d - t < 1000
       | Val NaN \<Rightarrow> False
       | Null \<Rightarrow> now - t < 1000
       | Undefined \<Rightarrow> False)"
  using assms by (simp add: needAuth_def split: nullable.splits jsnum.splits)

text \<open>
  Claim C2, amended. \<open>needAuth\<close> is a function of the session and the clock and has no
  effect. It is true exactly when the token is absent (\<open>null\<close>, \<open>undefined\<close> or the empty
  string, which \<open>!\<close> reads alike), or the version is absent, or the expiry minus the clock
  is below 1000 ms; an expiry still \<open>null\<close> counts as 0 and an expiry that is not a number
  is never below the margin. It is true on the session the constructor gives. A login
  that resolves has sent at least three requests; the transport answered the second with
  the seed and the third with the reply that carries the token. The session it leaves
  holds as expiry the clock of the login plus the time-out of that reply, and as token
  and version those of the reply and the seed or, when no user id was known and the
  settings page was read, those the parser found there. So after the login \<open>needAuth\<close> is
  decided by what was received: it is true when the token or the version received is
  absent, and otherwise it follows the time-out of the reply. When both are there and
  the time-out is a number of at least 1000 ms, \<open>needAuth\<close> is false at the clock of the
  login and true again exactly once the clock has passed the expiry minus 1000 ms.
\<close>

theorem needAuth_spec:
  "(needAuth p t \<longleftrightarrow>
      falsy_string (this_at p) \<or> falsy_string (this_ver p) \<or>
      (case this_sessionTime p of
         Val (Num x) \<Rightarrow> x - t < 1000
       | Val NaN \<Rightarrow> False
       | Null \<Rightarrow> - t < 1000
       | Undefined \<Rightarrow> False)) \<and>
   needAuth (constructor h l pw tt) t \<and>
   (logIn e now s = (Inr (), s') \<longrightarrow>
      (\<exists>r1 r2 r3 rest res2 res3 (seed :: json_object) (reply :: json_object) token version.
         sent s' = sent s @ [r1, r2, r3] @ rest \<and>
         net e (sent s @ [r1]) r2 = Response res2 \<and> json res2 = Some (JsonObject seed) \<and>
         net e (sent s @ [r1, r2]) r3 = Response res3 \<and>
         json res3 = Some (JsonObject reply) \<and>
         (if falsy_number (this_userId (session s))
          then \<exists>r4 res4 ctx.
                 net e (sent s @ [r1, r2, r3]) r4 = Response res4 \<and>
                 parserAppContext e (body_text res4) = Inr ctx \<and>
                 token = ctx_at ctx \<and> version = ctx_ver ctx
          else token = at reply \<and> version = ver seed) \<and>
         this_at (session s') = token \<and>
         this_ver (session s') = version \<and>
         this_sessionTime (session s') = Val (js_add (Num now) (ToNumber (timeOut reply))) \<and>
         (\<forall>t'. needAuth (session s') t' \<longleftrightarrow>
            falsy_string token \<or> falsy_string version \<or>
            (case timeOut reply of
               Val (Num d) \<Rightarrow> now + d - t' < 1000
             | Val NaN \<Rightarrow> False
             | Null \<Rightarrow> now - t' < 1000
             | Undefined \<Rightarrow> False)) \<and>
         (\<forall>d. \<not> falsy_string token \<and> \<not> falsy_string version \<and>
              timeOut reply = Val (Num d) \<and> 1000 \<le> d \<longrightarrow>
              \<not> needAuth (session s') now \<and>
              (\<forall>t'. needAuth (session s') t' \<longleftrightarrow> now + d - 1000 < t'))))"
proof (intro conjI impI)
  show "needAuth p t \<longleftrightarrow>
      falsy_string (this_at p) \<or> falsy_string (this_ver p) \<or>
      (case this_sessionTime p of
         Val (Num x) \<Rightarrow> x - t < 1000
       | Val NaN \<Rightarrow> False
       | Null \<Rightarrow> - t < 1000
       | Undefined \<Rightarrow> False)"
    by (rule needAuth_cases)
  show "needAuth (constructor h l pw tt) t"
    by (simp add: needAuth_def constructor_def)
next
  assume run: "logIn e now s = (Inr (), s')"
  from logIn_resolves [OF run] obtain r1 r2 r3 res2 res3 and seed reply :: json_object and s3
    where n2: "net e (sent s @ [r1]) r2 = Response res2"
      and j2: "json res2 = Some (JsonObject seed)"
      and n3: "net e (sent s @ [r1, r2]) r3 = Response res3"
      and j3: "json res3 = Some (JsonObject reply)"
      and sent3: "sent s3 = sent s @ [r1, r2, r3]"
      and uid: "this_userId (session s3) = this_userId (session s)"
      and ver3: "this_ver (session s3) = ver seed"
      and tk: "logIn_token e now reply s3 = (Inr (), s')"
    by blast
  from logIn_token_resolves [OF tk] obtain rest where
    sent': "sent s' = sent s3 @ rest"
    and expiry: "this_sessionTime (session s') =
      Val (js_add (Num now) (ToNumber (timeOut reply)))"
    and src: "if falsy_number (this_userId (session s3))
      then \<exists>r4 res4 ctx.
             net e (sent s3) r4 = Response res4 \<and>
             parserAppContext e (body_text res4) = Inr ctx \<and>
             this_at (session s') = ctx_at ctx \<and> this_ver (session s') = ctx_ver ctx
      else this_at (session s') = at reply \<and> this_ver (session s') = this_ver (session s3)"
    by blast
  let ?token = "this_at (session s')" and ?version = "this_ver (session s')"
  from src uid ver3 sent3
  have source: "if falsy_number (this_userId (session s))
          then \<exists>r4 res4 ctx.
                 net e (sent s @ [r1, r2, r3]) r4 = Response res4 \<and>
                 parserAppContext e (body_text res4) = Inr ctx \<and>
                 ?token = ctx_at ctx \<and> ?version = ctx_ver ctx
          else ?token = at reply \<and> ?version = ver seed"
    by (auto split: if_splits)
  note after = needAuth_after [OF expiry]
  have always: "\<forall>t'. needAuth (session s') t' \<longleftrightarrow>
            falsy_string ?token \<or> falsy_string ?version \<or>
            (case timeOut reply of
               Val (Num d) \<Rightarrow> now + d - t' < 1000
             | Val NaN \<Rightarrow> False
             | Null \<Rightarrow> now - t' < 1000
             | Undefined \<Rightarrow> False)"
    using after by blast
  have fresh: "\<forall>d. \<not> falsy_string ?token \<and> \<not> falsy_string ?version \<and>
              timeOut reply = Val (Num d) \<and> 1000 \<le> d \<longrightarrow>
              \<not> needAuth (session s') now \<and>
              (\<forall>t'. needAuth (session s') t' \<longleftrightarrow> now + d - 1000 < t')"
    by (auto simp: after)
  from sent' sent3 have log: "sent s' = sent s @ [r1, r2, r3] @ rest" by simp
  from log n2 j2 n3 j3 source expiry always fresh
  show "\<exists>r1 r2 r3 rest res2 res3 (seed :: json_object) (reply :: json_object) token version.
         sent s' = sent s @ [r1, r2, r3] @ rest \<and>
         net e (sent s @ [r1]) r2 = Response res2 \<and> json res2 = Some (JsonObject seed) \<and>
         net e (sent s @ [r1, r2]) r3 = Response res3 \<and>
         json res3 = Some (JsonObject reply) \<and>
         (if falsy_number (this_userId (session s))
          then \<exists>r4 res4 ctx.
                 net e (sent s @ [r1, r2, r3]) r4 = Response res4 \<and>
                 parserAppContext e (body_text res4) = Inr ctx \<and>
                 token = ctx_at ctx \<and> version = ctx_ver ctx
          else token = at reply \<and> version = ver seed) \<and>
         this_at (session s') = token \<and>
         this_ver (session s') = version \<and>
         this_sessionTime (session s') = Val (js_add (Num now) (ToNumber (timeOut reply))) \<and>
         (\<forall>t'. needAuth (session s') t' \<longleftrightarrow>
            falsy_string token \<or> falsy_string version \<or>
            (case timeOut reply of
               Val (Num d) \<Rightarrow> now + d - t' < 1000
             | Val NaN \<Rightarrow> False
             | Null \<Rightarrow> now - t' < 1000
             | Undefined \<Rightarrow> False)) \<and>
         (\<forall>d. \<not> falsy_string token \<and> \<not> falsy_string version \<and>
              timeOut reply = Val (Num d) \<and> 1000 \<le> d \<longrightarrow>
              \<not> needAuth (session s') now \<and>
              (\<forall>t'. needAuth (session s') t' \<longleftrightarrow> now + d - 1000 < t'))"
    by blast
qed

text \<open>The first login of the example resolves; a later login resolves with any token
  object.\<close>

lemma parseInt_examples: "parseInt ''1001'' = Num 1001" "parseInt ''77_0'' = Num 77"
  by code_simp+

lemma login_example:
  "fst (logIn (example_env login_replies) 1693872000000 new_state) = Inr ()"
  by (simp add: logIn_def logIn_seed_def logIn_token_def appContext_def store_identity_def
      store_context_def find_source_def fetch_def Let_def and_then_def res_json_def
      res_text_def as_object_def example_env_def scripted_def login_replies_def
      ok_response_def new_state_def new_session_def constructor_def saveCookie_fields
      seed_object_def token_object_def grades_object_def example_parserAppContext_def
      example_context_def parseInt_examples)

lemma relogin_example:
  "fst (logIn (example_env (relogin_replies token)) now school_state) = Inr () \<and>
   this_at (session (snd (logIn (example_env (relogin_replies token)) now school_state))) =
     at token \<and>
   this_ver (session (snd (logIn (example_env (relogin_replies token)) now school_state))) =
     Val ''VER-51'' \<and>
   this_sessionTime
     (session (snd (logIn (example_env (relogin_replies token)) now school_state))) =
     Val (js_add (Num now) (ToNumber (timeOut token)))"
  by (simp add: logIn_def logIn_seed_def logIn_token_def fetch_def Let_def and_then_def
      res_json_def as_object_def example_env_def scripted_def relogin_replies_def
      ok_response_def school_state_def school_session_def new_session_def constructor_def
      saveCookie_fields seed_object_def)

text \<open>Claim C2 as stated fails: a login resolves whatever the reply holds. With a
  time-out of 500 ms, or with no token in the reply, \<open>needAuth\<close> is still true at the clock
  of the login; with no time-out the expiry is \<open>NaN\<close> and \<open>needAuth\<close> is false in the year
  2100 as well.\<close>

theorem login_leaves_needAuth_counterexample:
  "fst (logIn (example_env (relogin_replies (token_object\<lparr>timeOut := Val (Num 500)\<rparr>)))
          1693872000000 school_state) = Inr () \<and>
   needAuth
     (session (snd (logIn (example_env (relogin_replies (token_object\<lparr>timeOut := Val (Num 500)\<rparr>)))
          1693872000000 school_state)))
     1693872000000 \<and>
   fst (logIn (example_env (relogin_replies (token_object\<lparr>at := Undefined\<rparr>)))
          1693872000000 school_state) = Inr () \<and>
   needAuth
     (session (snd (logIn (example_env (relogin_replies (token_object\<lparr>at := Undefined\<rparr>)))
          1693872000000 school_state)))
     1693872000000 \<and>
   fst (logIn (example_env (relogin_replies (token_object\<lparr>timeOut := Undefined\<rparr>)))
          1693872000000 school_state) = Inr () \<and>
   this_sessionTime
     (session (snd (logIn (example_env (relogin_replies (token_object\<lparr>timeOut := Undefined\<rparr>)))
          1693872000000 school_state))) = Val NaN \<and>
   \<not> needAuth
     (session (snd (logIn (example_env (relogin_replies (token_object\<lparr>timeOut := Undefined\<rparr>)))
          1693872000000 school_state)))
     4102444800000"
  using relogin_example [of "token_object\<lparr>timeOut := Val (Num 500)\<rparr>" 1693872000000]
    relogin_example [of "token_object\<lparr>at := Undefined\<rparr>" 1693872000000]
    relogin_example [of "token_object\<lparr>timeOut := Undefined\<rparr>" 1693872000000]
  by (simp add: needAuth_def token_object_def)

lemma scripted_reply:
  "net (example_env replies) log req =
     (if length log < length replies then replies ! length log else Failed)"
  by (simp add: example_env_def scripted_def)

text \<open>The new session of the example needs authentication. Its first login gets a
  reply with a time-out of one hour and reads the token and the version from the
  settings page; after it the session needs none until one second before the hour is
  over.\<close>

theorem needAuth_spec_witness:
  "needAuth new_session 1693872000000 \<and>
   logIn (example_env login_replies) 1693872000000 new_state =
     (Inr (), snd (logIn (example_env login_replies) 1693872000000 new_state)) \<and>
   \<not> needAuth (session (snd (logIn (example_env login_replies) 1693872000000 new_state)))
       1693872000000 \<and>
   \<not> needAuth (session (snd (logIn (example_env login_replies) 1693872000000 new_state)))
       1693875599000 \<and>
   needAuth (session (snd (logIn (example_env login_replies) 1693872000000 new_state)))
       1693875599001"
proof -
  let ?e = "example_env login_replies"
  let ?s' = "snd (logIn ?e 1693872000000 new_state)"
  have run: "logIn ?e 1693872000000 new_state = (Inr (), ?s')"
    using login_example by (simp add: prod_eq_iff)
  have unknown: "falsy_number (this_userId (session new_state))"
    by (simp add: new_state_def new_session_def constructor_def)
  from needAuth_spec
    [where e = ?e and now = 1693872000000 and s = new_state and s' = ?s',
      THEN conjunct2, THEN conjunct2, THEN mp, OF run]
  obtain r1 r2 r3 res3 r4 res4 ctx token version and reply :: json_object where
    n3: "net ?e (sent new_state @ [r1, r2]) r3 = Response res3"
    and j3: "json res3 = Some (JsonObject reply)"
    and n4: "net ?e (sent new_state @ [r1, r2, r3]) r4 = Response res4"
    and p4: "parserAppContext ?e (body_text res4) = Inr ctx"
    and tok: "token = ctx_at ctx" "version = ctx_ver ctx"
    and hour: "\<forall>d. \<not> falsy_string token \<and> \<not> falsy_string version \<and>
              timeOut reply = Val (Num d) \<and> 1000 \<le> d \<longrightarrow>
              \<not> needAuth (session ?s') 1693872000000 \<and>
              (\<forall>t'. needAuth (session ?s') t' \<longleftrightarrow> 1693872000000 + d - 1000 < t')"
    using unknown by auto
  from n3 have "res3 = ok_response\<lparr>json := Some (JsonObject token_object)\<rparr>"
    by (simp add: scripted_reply login_replies_def new_state_def)
  with j3 have "reply = token_object" by simp
  then have tmo: "timeOut reply = Val (Num 3600000)" by (simp add: token_object_def)
  from n4 have "res4 = ok_response\<lparr>body_text := ''settings page''\<rparr>"
    by (simp add: scripted_reply login_replies_def new_state_def)
  with p4 have "ctx = example_context"
    by (simp add: example_env_def example_parserAppContext_def)
  with tok have "\<not> falsy_string token" "\<not> falsy_string version"
    by (simp_all add: example_context_def)
  with hour tmo have after: "\<not> needAuth (session ?s') 1693872000000"
    "\<forall>t'. needAuth (session ?s') t' \<longleftrightarrow> 1693872000000 + 3600000 - 1000 < t'"
    by auto
  have fresh: "needAuth new_session 1693872000000"
    unfolding new_session_def by (rule needAuth_spec [THEN conjunct2, THEN conjunct1])
  from fresh run after show ?thesis by simp
qed

subsection \<open>The digest of the login\<close>

lemma logIn_seed_sends:
  "\<exists>rest. sent (snd (logIn_seed e now seed s)) =
     (sent s @
      [build_request ((session s)\<lparr>this_ver := ver seed\<rparr>) ''/webapi/login''
         (post (login_body e ((session s)\<lparr>this_ver := ver seed\<rparr>) seed))]) @ rest"
  unfolding logIn_seed_def Let_def
  apply (rule and_then_extends)
   apply (simp add: sent_fetch)
  apply (rule and_then_extends)
   apply (simp add: res_json_def split: option.splits)
  apply (rule and_then_extends)
   apply (simp add: as_object_def split: json_value.splits)
  apply (rule logIn_token_extends)
  done

text \<open>
  Claim C4, amended. The digest is the hash of the salt followed by the hash of the
  password, a function of the two; it is sent as \<open>pw2\<close> in the body of the login form, the
  first request the callback that receives the seed sends, and \<open>PW\<close> is its prefix of as
  many characters as the password has. The length of \<open>PW\<close> is therefore the smaller of
  the length of the password and the length of the digest: it is the length of the
  password exactly when the password is no longer than the digest.
\<close>

theorem login_digest_form:
  "login_digest e p seed = md5 e (str (salt seed) @ md5 e (this_password p)) \<and>
   login_body e p seed =
     ''lt='' @ str (lt seed) @ ''&ver='' @ str (ver seed) @
     ''&pw2='' @ login_digest e p seed @
     ''&UN='' @ encodeURI (this_login p) @
     ''&PW='' @ take (length (this_password p)) (login_digest e p seed) @
     ''&LoginType=1&'' @ this_ttslogin p \<and>
   (\<exists>rest. sent (snd (logIn_seed e now seed s)) =
      (sent s @
       [build_request ((session s)\<lparr>this_ver := ver seed\<rparr>) ''/webapi/login''
          (post (login_body e ((session s)\<lparr>this_ver := ver seed\<rparr>) seed))]) @ rest) \<and>
   length (take (length (this_password p)) (login_digest e p seed)) =
     min (length (this_password p)) (length (login_digest e p seed)) \<and>
   (length (this_password p) \<le> length (login_digest e p seed) \<longrightarrow>
      length (take (length (this_password p)) (login_digest e p seed)) =
        length (this_password p))"
proof (intro conjI impI)
  show "login_digest e p seed = md5 e (str (salt seed) @ md5 e (this_password p))"
    by (simp add: login_digest_def)
  show "login_body e p seed =
     ''lt='' @ str (lt seed) @ ''&ver='' @ str (ver seed) @
     ''&pw2='' @ login_digest e p seed @
     ''&UN='' @ encodeURI (this_login p) @
     ''&PW='' @ take (length (this_password p)) (login_digest e p seed) @
     ''&LoginType=1&'' @ this_ttslogin p"
    by (simp add: login_body_def Let_def)
  show "\<exists>rest. sent (snd (logIn_seed e now seed s)) =
      (sent s @
       [build_request ((session s)\<lparr>this_ver := ver seed\<rparr>) ''/webapi/login''
          (post (login_body e ((session s)\<lparr>this_ver := ver seed\<rparr>) seed))]) @ rest"
    by (rule logIn_seed_sends)
  show "length (take (length (this_password p)) (login_digest e p seed)) =
     min (length (this_password p)) (length (login_digest e p seed))"
    by (simp add: min.commute)
  show "length (take (length (this_password p)) (login_digest e p seed)) =
        length (this_password p)"
    if "length (this_password p) \<le> length (login_digest e p seed)"
    using that by simp
qed

text \<open>With the MD5 digest, 32 hexadecimal digits, and the salt \<open>salt\<close>.\<close>

lemma digest_examples:
  "login_digest (example_env []) new_session seed_object = ''00ff5c517778b035e3207dcbe61bc40f''"
  "login_digest (example_env []) long_password_session seed_object =
     ''ae692caf5985399f80ea6282e32a4748''"
  by code_simp+

text \<open>Claim C4 as stated fails for a password of 33 characters: \<open>PW\<close> is the whole digest,
  32 characters.\<close>

theorem login_digest_truncation_counterexample:
  "length (this_password long_password_session) = 33 \<and>
   login_digest (example_env []) long_password_session seed_object =
     ''ae692caf5985399f80ea6282e32a4748'' \<and>
   length (take (length (this_password long_password_session))
             (login_digest (example_env []) long_password_session seed_object)) = 32"
  by (simp add: digest_examples) (simp add: long_password_session_def constructor_def)

theorem login_digest_form_witness:
  "login_digest (example_env []) new_session seed_object =
     md5_rfc1321 (''salt'' @ md5_rfc1321 ''secret'') \<and>
   length (take (length (this_password new_session))
             (login_digest (example_env []) new_session seed_object)) =
     length (this_password new_session) \<and>
   length (this_password new_session) = 6"
proof -
  have short: "length (this_password new_session) \<le>
      length (login_digest (example_env []) new_session seed_object)"
    by (simp add: digest_examples) (simp add: new_session_def constructor_def)
  note t = login_digest_form [of "example_env []" new_session seed_object]
  from t [THEN conjunct1]
  have "login_digest (example_env []) new_session seed_object =
     md5_rfc1321 (''salt'' @ md5_rfc1321 ''secret'')"
    by (simp add: example_env_def seed_object_def new_session_def constructor_def)
  moreover note t [THEN conjunct2, THEN conjunct2, THEN conjunct2, THEN conjunct2, THEN mp,
      OF short]
  moreover have "length (this_password new_session) = 6"
    by (simp add: new_session_def constructor_def)
  ultimately show ?thesis by (intro conjI)
qed

subsection \<open>Coalescing\<close>

lemma in_flight_step:
  assumes "registry px k = Some h" and "filter (\<lambda>x. x = k) (drop h (executions px)) = [k]"
    and "h < length (executions px)" and "\<not> settles h ev"
  shows "registry (step px ev) k = Some h \<and>
         filter (\<lambda>x. x = k) (drop h (executions (step px ev))) = [k] \<and>
         h < length (executions (step px ev))"
proof (cases ev)
  case (Invoke k')
  show ?thesis
  proof (cases "registry px k'")
    case None
    with assms(1) have "k' \<noteq> k" by auto
    with None Invoke assms show ?thesis by (simp add: invoke_def)
  next
    case (Some h')
    with Invoke assms show ?thesis by (simp add: invoke_def)
  qed
next
  case (Settle h' out)
  with assms(4) have "h' \<noteq> h" by simp
  with Settle assms show ?thesis by (simp add: settle_def)
qed

lemma in_flight_run:
  assumes "registry px k = Some h" and "filter (\<lambda>x. x = k) (drop h (executions px)) = [k]"
    and "h < length (executions px)" and "\<forall>ev\<in>set evs. \<not> settles h ev"
  shows "registry (foldl step px evs) k = Some h \<and>
         filter (\<lambda>x. x = k) (drop h (executions (foldl step px evs))) = [k] \<and>
         h < length (executions (foldl step px evs))"
  using assms
proof (induction evs arbitrary: px)
  case Nil
  then show ?case by simp
next
  case (Cons ev evs)
  from Cons.prems have "\<not> settles h ev" by simp
  from in_flight_step [OF Cons.prems(1-3) this]
  have "registry (step px ev) k = Some h"
    "filter (\<lambda>x. x = k) (drop h (executions (step px ev))) = [k]"
    "h < length (executions (step px ev))" by auto
  moreover from Cons.prems have "\<forall>ev\<in>set evs. \<not> settles h ev" by simp
  ultimately show ?case using Cons.IH [of "step px ev"] by simp
qed

text \<open>
  Claim C9, on the model of the proxy. An operation is invoked with a key that has no
  entry: its execution starts, under the next handle. Whatever happens at the proxy
  while that execution has not settled, invocations with other keys, settlements of
  other executions, further invocations with the same key: an invocation with the same
  key returns that one handle and leaves the proxy as it is, and since the first
  invocation exactly one execution with this key has started. Every caller holds the
  one handle, so every caller gets the outcome the execution settles with; and when it
  settles, with a value or with a failure, the entry of the key is gone.
\<close>

theorem coalesced_invocations:
  "registry px k = None \<and>
   (\<forall>ev\<in>set evs. \<not> settles (length (executions px)) ev) \<longrightarrow>
     fst (invoke k px) = length (executions px) \<and>
     invoke k (foldl step (snd (invoke k px)) evs) =
       (length (executions px), foldl step (snd (invoke k px)) evs) \<and>
     filter (\<lambda>x. x = k)
       (drop (length (executions px)) (executions (foldl step (snd (invoke k px)) evs))) = [k] \<and>
     (\<forall>out.
        registry (settle (length (executions px)) out (foldl step (snd (invoke k px)) evs)) k =
          None \<and>
        settled (settle (length (executions px)) out (foldl step (snd (invoke k px)) evs))
          (length (executions px)) = Some out)"
proof (intro impI)
  assume a: "registry px k = None \<and>
   (\<forall>ev\<in>set evs. \<not> settles (length (executions px)) ev)"
  let ?h = "length (executions px)"
  let ?p1 = "snd (invoke k px)"
  let ?p2 = "foldl step ?p1 evs"
  from a have first: "fst (invoke k px) = ?h" by (simp add: invoke_def)
  from a have "registry ?p1 k = Some ?h"
    "filter (\<lambda>x. x = k) (drop ?h (executions ?p1)) = [k]"
    "?h < length (executions ?p1)"
    by (simp_all add: invoke_def)
  from in_flight_run [OF this] a
  have inv: "registry ?p2 k = Some ?h"
    "filter (\<lambda>x. x = k) (drop ?h (executions ?p2)) = [k]"
    by auto
  from inv(1) have again: "invoke k ?p2 = (?h, ?p2)" by (simp add: invoke_def)
  from inv(1) have "\<forall>out. registry (settle ?h out ?p2) k = None \<and>
      settled (settle ?h out ?p2) ?h = Some out"
    by (simp add: settle_def)
  with first again inv(2) show "fst (invoke k px) = ?h \<and> invoke k ?p2 = (?h, ?p2) \<and>
     filter (\<lambda>x. x = k) (drop ?h (executions ?p2)) = [k] \<and>
     (\<forall>out. registry (settle ?h out ?p2) k = None \<and>
        settled (settle ?h out ?p2) ?h = Some out)"
    by blast
qed


text \<open>Three callers of \<open>logIn\<close> share the execution 0, the diary runs as execution 1;
  the login may fail or succeed.\<close>

theorem coalesced_invocations_witness:
  "fst (invoke login_key idle) = length (executions idle) \<and>
   invoke login_key (foldl step (snd (invoke login_key idle)) while_logging_in) =
     (length (executions idle), foldl step (snd (invoke login_key idle)) while_logging_in) \<and>
   filter (\<lambda>x. x = login_key)
     (drop (length (executions idle))
        (executions (foldl step (snd (invoke login_key idle)) while_logging_in))) =
     [login_key] \<and>
   registry (settle (length (executions idle)) (Rejected TransportFailure)
      (foldl step (snd (invoke login_key idle)) while_logging_in)) login_key = None \<and>
   settled (settle (length (executions idle)) (Rejected TransportFailure)
      (foldl step (snd (invoke login_key idle)) while_logging_in))
      (length (executions idle)) = Some (Rejected TransportFailure) \<and>
   registry (settle (length (executions idle)) (Resolved ''in'')
      (foldl step (snd (invoke login_key idle)) while_logging_in)) login_key = None \<and>
   settled (settle (length (executions idle)) (Resolved ''in'')
      (foldl step (snd (invoke login_key idle)) while_logging_in))
      (length (executions idle)) = Some (Resolved ''in'') \<and>
   executions (foldl step (snd (invoke login_key idle)) while_logging_in) =
     [login_key, diary_key]"
proof -
  have h: "registry idle login_key = None \<and>
      (\<forall>ev\<in>set while_logging_in. \<not> settles (length (executions idle)) ev)"
    by (simp add: idle_def while_logging_in_def)
  note c = coalesced_invocations [of idle login_key while_logging_in, THEN mp, OF h]
  have e: "executions (foldl step (snd (invoke login_key idle)) while_logging_in) =
     [login_key, diary_key]"
    by (simp add: idle_def while_logging_in_def invoke_def settle_def login_key_def
        diary_key_def)
  from c [THEN conjunct1] c [THEN conjunct2, THEN conjunct1]
    c [THEN conjunct2, THEN conjunct2, THEN conjunct1]
    c [THEN conjunct2, THEN conjunct2, THEN conjunct2, THEN spec, of "Rejected TransportFailure"]
    c [THEN conjunct2, THEN conjunct2, THEN conjunct2, THEN spec, of "Resolved ''in''"]
    e
  show ?thesis by (intro conjI) (erule conjunct1 conjunct2 | assumption)+
qed

end
